theory Spec2Isabelle
  imports Complex_Main
begin

section \<open>JavaScript values used by the handlers\<close>

text \<open>
  Strings are lists of characters; one character stands for one UTF-16 code unit, the
  unit that \<^verbatim>\<open>length\<close> and \<^verbatim>\<open>substring\<close> count. A JavaScript number is the
  real number a finite double holds; a product of two numbers is rounded to the nearest
  double (\<open>double_mul\<close> below). A value that may be \<^verbatim>\<open>undefined\<close> or
  \<^verbatim>\<open>null\<close> is an option.
\<close>

datatype json =
    JNull
  | JBool bool
  | JNumber real
  | JString string
  | JArray "json list"
  | JObject "(string \<times> json) list"

text \<open>Truthiness of a string that may be absent: \<^verbatim>\<open>if (s)\<close>.\<close>

fun truthy :: "string option \<Rightarrow> bool" where
  "truthy None = False"
| "truthy (Some s) = (s \<noteq> [])"

text \<open>\<^verbatim>\<open>Math.round(x)\<close>: the nearest integer, a tie going up.\<close>

definition Math_round :: "real \<Rightarrow> int" where
  "Math_round x = \<lfloor>x + 1 / 2\<rfloor>"

text \<open>
  IEEE 754 binary64, the format of a JavaScript number: 53 significant bits, exponents
  from -1022 to 1023, rounding to the nearest value with a tie going to the even one.

  \<open>binade fuel a e\<close> scales \<open>a > 0\<close> into the interval from 1 to 2 and counts the
  halvings and doublings: it is \<open>e + k\<close> where \<open>2 ^ k \<le> a < 2 ^ (k + 1)\<close>, as long as
  the fuel lasts. 1100 steps reach every exponent that matters: below -1022 the exponent is
  held at -1022 (subnormal numbers), and from 1024 on the value is infinite.
\<close>

definition pow2 :: "int \<Rightarrow> real" where
  "pow2 e = (if 0 \<le> e then 2 ^ nat e else 1 / 2 ^ nat (- e))"

definition round_half_even :: "real \<Rightarrow> int" where
  "round_half_even x =
     (let f = \<lfloor>x\<rfloor>; d = x - of_int f
      in if d < 1 / 2 then f else if 1 / 2 < d then f + 1 else if even f then f else f + 1)"

function binade :: "nat \<Rightarrow> real \<Rightarrow> int \<Rightarrow> int" where
  "binade fuel a e =
     (if fuel = 0 then e
      else if 2 \<le> a then binade (fuel - 1) (a / 2) (e + 1)
      else if a < 1 then binade (fuel - 1) (a * 2) (e - 1)
      else e)"
  by pat_completeness auto
termination
  by (relation "measure (\<lambda>(fuel, a, e). fuel)") auto

declare binade.simps [simp del]

text \<open>
  The double nearest to a real number, \<open>None\<close> when that is an infinity. It is the
  value of a decimal literal (as \<^verbatim>\<open>response.json()\<close> reads it) and of the result of
  an arithmetic operation on doubles.
\<close>

definition round_double :: "real \<Rightarrow> real option" where
  "round_double x =
     (if x = 0 then Some 0
      else let a = \<bar>x\<bar>;
               e = max (- 1022) (binade 1100 a 0);
               ulp = pow2 (e - 52);
               r = of_int (round_half_even (a / ulp)) * ulp
           in if 2 ^ 1024 \<le> r then None else Some (sgn x * r))"

text \<open>The product \<^verbatim>\<open>x * y\<close> of two finite doubles.\<close>

definition double_mul :: "real \<Rightarrow> real \<Rightarrow> real option" where
  "double_mul x y = round_double (x * y)"

text \<open>\<^verbatim>\<open>s.substring(0, n)\<close> for a constant \<open>n \<ge> 0\<close>.\<close>

definition substring0 :: "string \<Rightarrow> nat \<Rightarrow> string" where
  "substring0 s n = take n s"

text \<open>
  \<^verbatim>\<open>xs.slice(0, e)\<close>: the end is truncated towards zero; a negative end counts from
  the end of the array, and the result is never longer than the array.
\<close>

definition ToIntegerOrInfinity :: "real \<Rightarrow> int" where
  "ToIntegerOrInfinity e = (if e < 0 then \<lceil>e\<rceil> else \<lfloor>e\<rfloor>)"

definition slice0 :: "'a list \<Rightarrow> real \<Rightarrow> 'a list" where
  "slice0 xs e =
     (let relativeEnd = ToIntegerOrInfinity e in
      if relativeEnd < 0 then take (nat (int (length xs) + relativeEnd)) xs
      else take (nat relativeEnd) xs)"

text \<open>The decimal digits of a number, as a template literal prints it.\<close>

definition digit :: "nat \<Rightarrow> char" where
  "digit d = ''0123456789'' ! d"

function show_nat :: "nat \<Rightarrow> string" where
  "show_nat n = (if n < 10 then [digit n] else show_nat (n div 10) @ [digit (n mod 10)])"
  by pat_completeness auto
termination
  by (relation "measure id") auto

declare show_nat.simps [simp del]

section \<open>Upstream data (reader-mcp.ts)\<close>

text \<open>
  The interface \<^verbatim>\<open>ReaderDocument\<close>. The three fields that the formatter guards against a
  missing value (\<^verbatim>\<open>author\<close>, \<^verbatim>\<open>summary\<close>, \<^verbatim>\<open>tags\<close>) are options; \<^verbatim>\<open>tags\<close>
  holds the keys of the tag object in the order \<^verbatim>\<open>Object.keys\<close> lists them.
\<close>

record ReaderDocument =
  id_doc :: string
  url :: string
  source_url :: string
  title :: string
  author :: "string option"
  source :: string
  category :: string
  location :: string
  tags :: "string list option"
  site_name :: string
  word_count :: real
  created_at :: string
  updated_at :: string
  notes_doc :: string
  published_date :: "string option"
  summary :: "string option"
  image_url :: string
  parent_id :: "string option"
  reading_progress :: real
  first_opened_at :: "string option"
  last_opened_at :: "string option"
  saved_at :: string
  last_moved_at :: string

record ReaderTag =
  key :: string
  name :: string

text \<open>\<^verbatim>\<open>ReaderListResponse\<close> and \<^verbatim>\<open>ReaderTagsResponse\<close>: one page of a listing.\<close>

record 'a ReaderPage =
  count :: real
  nextPageCursor :: "string option"
  results :: "'a list"

type_synonym ReaderListResponse = "ReaderDocument ReaderPage"
type_synonym ReaderTagsResponse = "ReaderTag ReaderPage"

section \<open>listDocuments: formatting one document\<close>

text \<open>
  The arrow function given to \<^verbatim>\<open>allDocuments.map\<close>:
  \<^verbatim>\<open>summary: doc.summary ? doc.summary.substring(0, 100) + "..." : "No summary"\<close> and
  \<^verbatim>\<open>reading_progress: Math.round(doc.reading_progress * 100)\<close>.
\<close>

definition format_author :: "string option \<Rightarrow> string" where
  "format_author a = (if truthy a then the a else ''Unknown'')"

definition format_summary :: "string option \<Rightarrow> string" where
  "format_summary s = (if truthy s then substring0 (the s) 100 @ ''...'' else ''No summary'')"

text \<open>
  \<^verbatim>\<open>Math.round(doc.reading_progress * 100)\<close>, as \<^verbatim>\<open>JSON.stringify\<close> prints it: the
  product is a double product; when it is infinite so is its rounding, which is printed as
  \<^verbatim>\<open>null\<close>.
\<close>

definition format_reading_progress :: "real \<Rightarrow> json" where
  "format_reading_progress p =
     (case double_mul p 100 of
        None \<Rightarrow> JNull
      | Some x \<Rightarrow> JNumber (of_int (Math_round x)))"

definition Object_keys :: "string list option \<Rightarrow> string list" where
  "Object_keys t = (case t of None \<Rightarrow> [] | Some ks \<Rightarrow> ks)"

definition formatDocument :: "ReaderDocument \<Rightarrow> json" where
  "formatDocument doc = JObject
     [(''id'', JString (id_doc doc)),
      (''title'', JString (title doc)),
      (''author'', JString (format_author (author doc))),
      (''url'', JString (url doc)),
      (''source_url'', JString (source_url doc)),
      (''category'', JString (category doc)),
      (''location'', JString (location doc)),
      (''word_count'', JNumber (word_count doc)),
      (''reading_progress'', format_reading_progress (reading_progress doc)),
      (''summary'', JString (format_summary (summary doc))),
      (''saved_at'', JString (saved_at doc)),
      (''tags'', JArray (map JString (Object_keys (tags doc))))]"

text \<open>Reading a field of a JSON object.\<close>

fun field :: "json \<Rightarrow> string \<Rightarrow> json option" where
  "field (JObject kvs) k = map_of kvs k"
| "field _ k = None"

section \<open>Requests, responses and tool results\<close>

text \<open>
  \<^verbatim>\<open>URLSearchParams\<close> is an ordered list of name-value pairs. \<^verbatim>\<open>append\<close> adds a pair
  at the end; \<^verbatim>\<open>set\<close> overwrites the first pair of that name and deletes the others, or
  appends when there is none.
\<close>

type_synonym URLSearchParams = "(string \<times> string) list"

definition URLSearchParams_append :: "URLSearchParams \<Rightarrow> string \<Rightarrow> string \<Rightarrow> URLSearchParams" where
  "URLSearchParams_append ps n v = ps @ [(n, v)]"

fun URLSearchParams_set :: "URLSearchParams \<Rightarrow> string \<Rightarrow> string \<Rightarrow> URLSearchParams" where
  "URLSearchParams_set [] n v = [(n, v)]"
| "URLSearchParams_set ((k, w) # ps) n v =
     (if k = n then (n, v) # filter (\<lambda>p. fst p \<noteq> n) ps
      else (k, w) # URLSearchParams_set ps n v)"

text \<open>
  One call of \<^verbatim>\<open>fetch\<close>: the method, the URL up to the question mark, the query
  parameters, the headers and the JSON body, if any.
\<close>

record http_request =
  req_method :: string
  req_url :: string
  req_query :: URLSearchParams
  req_headers :: "(string \<times> string) list"
  req_body :: "json option"

text \<open>
  What \<^verbatim>\<open>fetch\<close> gives back: a rejection (an \<^verbatim>\<open>Error\<close> with its message), or a
  response with its status, its reason phrase and what \<^verbatim>\<open>response.json()\<close> yields
  (\<open>Inl\<close> the message of the error when the body does not parse).
\<close>

record 'b http_response =
  status :: nat
  statusText :: string
  body_json :: "string + 'b"

datatype 'b fetch_result = Rejected string | Resolved "'b http_response"

text \<open>\<^verbatim>\<open>response.ok\<close>: the status is in the range 200 to 299.\<close>

definition ok :: "'b http_response \<Rightarrow> bool" where
  "ok response = (200 \<le> status response \<and> status response \<le> 299)"

text \<open>The message of \<^verbatim>\<open>new Error(`API request failed: ${response.status} ${response.statusText}`)\<close>.\<close>

definition api_request_failed :: "'b http_response \<Rightarrow> string" where
  "api_request_failed response =
     ''API request failed: '' @ show_nat (status response) @ '' '' @ statusText response"

text \<open>
  A tool result \<^verbatim>\<open>{ content: [{ type: "text", text }], isError }\<close>. The text is either
  a plain string or \<^verbatim>\<open>JSON.stringify(value, null, 2)\<close>, kept as the value it prints. A
  result without the key \<^verbatim>\<open>isError\<close> has \<open>isError = False\<close>.
\<close>

datatype tool_text = Plain string | JSON_stringify json

record ToolResult =
  content_text :: tool_text
  isError :: bool

section \<open>listDocuments\<close>

datatype list_location = New | Later | Shortlist | Archive | Feed

datatype doc_category = Article | Email | Rss | Highlight | Note | Pdf | Epub | Tweet | Video

fun list_location_name :: "list_location \<Rightarrow> string" where
  "list_location_name New = ''new''"
| "list_location_name Later = ''later''"
| "list_location_name Shortlist = ''shortlist''"
| "list_location_name Archive = ''archive''"
| "list_location_name Feed = ''feed''"

fun doc_category_name :: "doc_category \<Rightarrow> string" where
  "doc_category_name Article = ''article''"
| "doc_category_name Email = ''email''"
| "doc_category_name Rss = ''rss''"
| "doc_category_name Highlight = ''highlight''"
| "doc_category_name Note = ''note''"
| "doc_category_name Pdf = ''pdf''"
| "doc_category_name Epub = ''epub''"
| "doc_category_name Tweet = ''tweet''"
| "doc_category_name Video = ''video''"

text \<open>
  The arguments of the handler after validation (\<open>ld_\<close> for listDocuments). The schema
  of \<^verbatim>\<open>limit\<close> is \<^verbatim>\<open>z.number().min(1).max(100).default(20)\<close>: a number, not
  necessarily whole.
\<close>

record listDocuments_args =
  ld_location :: "list_location option"
  ld_category :: "doc_category option"
  ld_tag :: "string option"
  ld_updatedAfter :: "string option"
  ld_limit :: real

definition listDocuments_params :: "listDocuments_args \<Rightarrow> URLSearchParams" where
  "listDocuments_params a =
     (let params = [];
          params = (case ld_location a of
                      Some l \<Rightarrow> URLSearchParams_append params ''location'' (list_location_name l)
                    | None \<Rightarrow> params);
          params = (case ld_category a of
                      Some c \<Rightarrow> URLSearchParams_append params ''category'' (doc_category_name c)
                    | None \<Rightarrow> params);
          params = (if truthy (ld_tag a)
                    then URLSearchParams_append params ''tag'' (the (ld_tag a)) else params);
          params = (if truthy (ld_updatedAfter a)
                    then URLSearchParams_append params ''updatedAfter'' (the (ld_updatedAfter a))
                    else params)
      in URLSearchParams_append params ''withHtmlContent'' ''true'')"

definition list_request :: "string \<Rightarrow> URLSearchParams \<Rightarrow> http_request" where
  "list_request apiToken params =
     \<lparr>req_method = ''GET'', req_url = ''https://readwise.io/api/v3/list/'',
      req_query = params, req_headers = [(''Authorization'', ''Token '' @ apiToken)],
      req_body = None\<rparr>"

text \<open>
  The \<^verbatim>\<open>do { ... } while (true)\<close> of listDocuments. The upstream is the list of its
  answers, the k-th answer for the k-th request. The loop returns what it has when it
  leaves (\<open>Inl\<close> the message of the error thrown, \<open>Inr\<close> the documents at
  \<^verbatim>\<open>break\<close>), and \<open>None\<close> when it asks for a page beyond the answers listed; with
  it, the requests sent, in order.
\<close>

fun listDocuments_loop ::
  "string \<Rightarrow> real \<Rightarrow> URLSearchParams \<Rightarrow> string option \<Rightarrow> ReaderDocument list \<Rightarrow> nat \<Rightarrow>
   ReaderListResponse fetch_result list \<Rightarrow>
   (string + ReaderDocument list) option \<times> http_request list" where
  "listDocuments_loop apiToken limit params cursor allDocuments totalFetched [] = (None, [])"
| "listDocuments_loop apiToken limit params cursor allDocuments totalFetched (r # upstream) =
     (let params = (if truthy cursor then URLSearchParams_set params ''pageCursor'' (the cursor)
                    else params);
          request = list_request apiToken params
      in case r of
           Rejected m \<Rightarrow> (Some (Inl m), [request])
         | Resolved response \<Rightarrow>
             if \<not> ok response then (Some (Inl (api_request_failed response)), [request])
             else (case body_json response of
                 Inl m \<Rightarrow> (Some (Inl m), [request])
               | Inr data \<Rightarrow>
                   let remainingSpace = limit - real totalFetched;
                       documentsToAdd = slice0 (results data) remainingSpace;
                       allDocuments = allDocuments @ documentsToAdd;
                       totalFetched = totalFetched + length documentsToAdd
                   in if real totalFetched \<ge> limit \<or> \<not> truthy (nextPageCursor data)
                      then (Some (Inr allDocuments), [request])
                      else (case listDocuments_loop apiToken limit params (nextPageCursor data)
                                   allDocuments totalFetched upstream of
                              (res, reqs) \<Rightarrow> (res, request # reqs))))"

text \<open>The object \<^verbatim>\<open>filters\<close>; \<^verbatim>\<open>JSON.stringify\<close> leaves out an undefined value.\<close>

definition listDocuments_filters :: "listDocuments_args \<Rightarrow> json" where
  "listDocuments_filters a = JObject
     ((case ld_location a of Some l \<Rightarrow> [(''location'', JString (list_location_name l))] | None \<Rightarrow> []) @
      (case ld_category a of Some c \<Rightarrow> [(''category'', JString (doc_category_name c))] | None \<Rightarrow> []) @
      (case ld_tag a of Some t \<Rightarrow> [(''tag'', JString t)] | None \<Rightarrow> []) @
      (case ld_updatedAfter a of Some u \<Rightarrow> [(''updatedAfter'', JString u)] | None \<Rightarrow> []))"

text \<open>The handler: the loop, then the formatting, inside \<^verbatim>\<open>try\<close>/\<^verbatim>\<open>catch\<close>.\<close>

definition listDocuments ::
  "string \<Rightarrow> listDocuments_args \<Rightarrow> ReaderListResponse fetch_result list \<Rightarrow>
   ToolResult option \<times> http_request list" where
  "listDocuments apiToken a upstream =
     (case listDocuments_loop apiToken (ld_limit a) (listDocuments_params a) None [] 0 upstream of
        (None, reqs) \<Rightarrow> (None, reqs)
      | (Some (Inl errorMessage), reqs) \<Rightarrow>
          (Some \<lparr>content_text = Plain (''Error fetching documents: '' @ errorMessage),
                 isError = True\<rparr>, reqs)
      | (Some (Inr allDocuments), reqs) \<Rightarrow>
          (let formattedDocuments = map formatDocument allDocuments
           in (Some \<lparr>content_text = JSON_stringify (JObject
                        [(''documents'', JArray formattedDocuments),
                         (''count'', JNumber (real (length formattedDocuments))),
                         (''filters'', listDocuments_filters a)]),
                      isError = False\<rparr>, reqs)))"

section \<open>tagList\<close>

definition tags_request :: "string \<Rightarrow> URLSearchParams \<Rightarrow> http_request" where
  "tags_request apiToken params =
     \<lparr>req_method = ''GET'', req_url = ''https://readwise.io/api/v3/tags/'',
      req_query = params, req_headers = [(''Authorization'', ''Token '' @ apiToken)],
      req_body = None\<rparr>"

text \<open>The loop of tagList; its \<^verbatim>\<open>params\<close> are new in every round.\<close>

fun tagList_loop ::
  "string \<Rightarrow> real \<Rightarrow> string option \<Rightarrow> ReaderTag list \<Rightarrow> nat \<Rightarrow>
   ReaderTagsResponse fetch_result list \<Rightarrow>
   (string + ReaderTag list) option \<times> http_request list" where
  "tagList_loop apiToken limit cursor allTags totalFetched [] = (None, [])"
| "tagList_loop apiToken limit cursor allTags totalFetched (r # upstream) =
     (let params = [];
          params = (if truthy cursor then URLSearchParams_set params ''pageCursor'' (the cursor)
                    else params);
          request = tags_request apiToken params
      in case r of
           Rejected m \<Rightarrow> (Some (Inl m), [request])
         | Resolved response \<Rightarrow>
             if \<not> ok response then (Some (Inl (api_request_failed response)), [request])
             else (case body_json response of
                 Inl m \<Rightarrow> (Some (Inl m), [request])
               | Inr data \<Rightarrow>
                   let remainingSpace = limit - real totalFetched;
                       tagsToAdd = slice0 (results data) remainingSpace;
                       allTags = allTags @ tagsToAdd;
                       totalFetched = totalFetched + length tagsToAdd
                   in if real totalFetched \<ge> limit \<or> \<not> truthy (nextPageCursor data)
                      then (Some (Inr allTags), [request])
                      else (case tagList_loop apiToken limit (nextPageCursor data)
                                   allTags totalFetched upstream of
                              (res, reqs) \<Rightarrow> (res, request # reqs))))"

definition tag_json :: "ReaderTag \<Rightarrow> json" where
  "tag_json t = JObject [(''key'', JString (key t)), (''name'', JString (name t))]"

definition tagList ::
  "string \<Rightarrow> real \<Rightarrow> ReaderTagsResponse fetch_result list \<Rightarrow>
   ToolResult option \<times> http_request list" where
  "tagList apiToken limit upstream =
     (case tagList_loop apiToken limit None [] 0 upstream of
        (None, reqs) \<Rightarrow> (None, reqs)
      | (Some (Inl errorMessage), reqs) \<Rightarrow>
          (Some \<lparr>content_text = Plain (''Error fetching tags: '' @ errorMessage),
                 isError = True\<rparr>, reqs)
      | (Some (Inr allTags), reqs) \<Rightarrow>
          (Some \<lparr>content_text = JSON_stringify (JObject
                     [(''tags'', JArray (map tag_json allTags)),
                      (''count'', JNumber (real (length allTags)))]),
                   isError = False\<rparr>, reqs))"

section \<open>Upstream listings\<close>

text \<open>An answer \<open>r\<close> delivers the page \<open>p\<close>: a response with a 2xx status whose body is \<open>p\<close>.\<close>

definition serves :: "'b fetch_result \<Rightarrow> 'b \<Rightarrow> bool" where
  "serves r p = (case r of Rejected m \<Rightarrow> False
                 | Resolved response \<Rightarrow> ok response \<and> body_json response = Inr p)"

text \<open>
  The value of \<^verbatim>\<open>totalFetched\<close> after the pages \<open>ps\<close>, starting from a given value:
  every page adds the length of its slice.
\<close>

fun accumulated :: "real \<Rightarrow> nat \<Rightarrow> 'a ReaderPage list \<Rightarrow> nat" where
  "accumulated limit totalFetched [] = totalFetched"
| "accumulated limit totalFetched (p # ps) =
     accumulated limit (totalFetched + length (slice0 (results p) (limit - real totalFetched))) ps"

text \<open>
  The condition of \<^verbatim>\<open>break\<close> after the pages \<open>ps\<close>: the count has reached the limit, or
  the last page read has a falsy \<^verbatim>\<open>nextPageCursor\<close>.
\<close>

definition stops :: "real \<Rightarrow> nat \<Rightarrow> 'a ReaderPage list \<Rightarrow> bool" where
  "stops limit totalFetched ps =
     (real (accumulated limit totalFetched ps) \<ge> limit \<or> \<not> truthy (nextPageCursor (last ps)))"

text \<open>The parameters of a round of the loop, from those of the round before.\<close>

definition next_params :: "URLSearchParams \<Rightarrow> string option \<Rightarrow> URLSearchParams" where
  "next_params ps cursor =
     (if truthy cursor then URLSearchParams_set ps ''pageCursor'' (the cursor) else ps)"

text \<open>The values a request carries for one query parameter.\<close>

definition query_values :: "http_request \<Rightarrow> string \<Rightarrow> string list" where
  "query_values request n = map snd (filter (\<lambda>p. fst p = n) (req_query request))"

section \<open>createDocument\<close>

datatype save_location = SaveNew | SaveLater | SaveArchive | SaveFeed

fun save_location_name :: "save_location \<Rightarrow> string" where
  "save_location_name SaveNew = ''new''"
| "save_location_name SaveLater = ''later''"
| "save_location_name SaveArchive = ''archive''"
| "save_location_name SaveFeed = ''feed''"

text \<open>The arguments after validation (\<open>cd_\<close> for createDocument); only \<^verbatim>\<open>url\<close> is required.\<close>

record createDocument_args =
  cd_url :: string
  cd_html :: "string option"
  cd_should_clean_html :: "bool option"
  cd_title :: "string option"
  cd_author :: "string option"
  cd_summary :: "string option"
  cd_published_date :: "string option"
  cd_image_url :: "string option"
  cd_location :: "save_location option"
  cd_category :: "doc_category option"
  cd_saved_using :: "string option"
  cd_tags :: "string list option"
  cd_notes :: "string option"

text \<open>The assignment \<^verbatim>\<open>payload.k = v\<close> on an object kept as the list of its entries.\<close>

fun assign :: "(string \<times> json) list \<Rightarrow> string \<Rightarrow> json \<Rightarrow> (string \<times> json) list" where
  "assign [] k v = [(k, v)]"
| "assign ((k', v') # kvs) k v =
     (if k' = k then (k, v) # kvs else (k', v') # assign kvs k v)"

definition createDocument_payload :: "createDocument_args \<Rightarrow> (string \<times> json) list" where
  "createDocument_payload a =
     (let payload = [(''url'', JString (cd_url a))];
          payload = (if truthy (cd_html a)
                     then assign payload ''html'' (JString (the (cd_html a))) else payload);
          payload = (if cd_should_clean_html a \<noteq> None
                     then assign payload ''should_clean_html'' (JBool (the (cd_should_clean_html a)))
                     else payload);
          payload = (if truthy (cd_title a)
                     then assign payload ''title'' (JString (the (cd_title a))) else payload);
          payload = (if truthy (cd_author a)
                     then assign payload ''author'' (JString (the (cd_author a))) else payload);
          payload = (if truthy (cd_summary a)
                     then assign payload ''summary'' (JString (the (cd_summary a))) else payload);
          payload = (if truthy (cd_published_date a)
                     then assign payload ''published_date'' (JString (the (cd_published_date a)))
                     else payload);
          payload = (if truthy (cd_image_url a)
                     then assign payload ''image_url'' (JString (the (cd_image_url a)))
                     else payload);
          payload = (if cd_location a \<noteq> None
                     then assign payload ''location''
                            (JString (save_location_name (the (cd_location a))))
                     else payload);
          payload = (if cd_category a \<noteq> None
                     then assign payload ''category''
                            (JString (doc_category_name (the (cd_category a))))
                     else payload);
          payload = (if truthy (cd_saved_using a)
                     then assign payload ''saved_using'' (JString (the (cd_saved_using a)))
                     else payload);
          payload = (if cd_tags a \<noteq> None
                     then assign payload ''tags'' (JArray (map JString (the (cd_tags a))))
                     else payload);
          payload = (if truthy (cd_notes a)
                     then assign payload ''notes'' (JString (the (cd_notes a))) else payload)
      in payload)"

definition save_request :: "string \<Rightarrow> (string \<times> json) list \<Rightarrow> http_request" where
  "save_request apiToken payload =
     \<lparr>req_method = ''POST'', req_url = ''https://readwise.io/api/v3/save/'', req_query = [],
      req_headers = [(''Authorization'', ''Token '' @ apiToken),
                     (''Content-Type'', ''application/json'')],
      req_body = Some (JObject payload)\<rparr>"

text \<open>
  The handler makes one request; the upstream is a function from the request to its
  answer. The handler returns the tool result and the request it sent.
\<close>

definition createDocument ::
  "string \<Rightarrow> createDocument_args \<Rightarrow> (http_request \<Rightarrow> json fetch_result) \<Rightarrow>
   ToolResult \<times> http_request" where
  "createDocument apiToken a upstream =
     (let request = save_request apiToken (createDocument_payload a);
          failed = (\<lambda>errorMessage.
             \<lparr>content_text = Plain (''Error creating document: '' @ errorMessage),
              isError = True\<rparr>)
      in case upstream request of
           Rejected m \<Rightarrow> (failed m, request)
         | Resolved response \<Rightarrow>
             if \<not> ok response then (failed (api_request_failed response), request)
             else (case body_json response of
                 Inl m \<Rightarrow> (failed m, request)
               | Inr data \<Rightarrow>
                   (\<lparr>content_text = JSON_stringify (JObject
                        [(''success'', JBool True),
                         (''message'', JString ''Document created successfully''),
                         (''document'', data)]),
                     isError = False\<rparr>, request)))"

section \<open>deleteDocument\<close>

definition delete_request :: "string \<Rightarrow> string \<Rightarrow> http_request" where
  "delete_request apiToken documentId =
     \<lparr>req_method = ''DELETE'',
      req_url = ''https://readwise.io/api/v3/delete/'' @ documentId @ ''/'', req_query = [],
      req_headers = [(''Authorization'', ''Token '' @ apiToken)],
      req_body = None\<rparr>"

definition deleteDocument ::
  "string \<Rightarrow> string \<Rightarrow> (http_request \<Rightarrow> 'b fetch_result) \<Rightarrow> ToolResult \<times> http_request" where
  "deleteDocument apiToken documentId upstream =
     (let request = delete_request apiToken documentId;
          failed = (\<lambda>errorMessage.
             \<lparr>content_text = Plain (''Error deleting document: '' @ errorMessage),
              isError = True\<rparr>)
      in case upstream request of
           Rejected m \<Rightarrow> (failed m, request)
         | Resolved response \<Rightarrow>
             if \<not> ok response then (failed (api_request_failed response), request)
             else (\<lparr>content_text = JSON_stringify (JObject
                        [(''success'', JBool True),
                         (''message'', JString ''Document deleted successfully''),
                         (''documentId'', JString documentId)]),
                     isError = False\<rparr>, request))"

section \<open>POST /authorize (reader-handler.ts)\<close>

text \<open>
  \<^verbatim>\<open>AuthRequest\<close> is a type of the OAuth provider library; the handler passes it on and
  reads its \<^verbatim>\<open>scope\<close>. \<^verbatim>\<open>Props\<close> is \<^verbatim>\<open>{ apiToken: string }\<close>.
\<close>

record AuthRequest =
  clientId :: string
  redirectUri :: string
  scope :: "string list"
  state :: string

record Props =
  apiToken :: string

text \<open>The argument of \<^verbatim>\<open>completeAuthorization\<close>.\<close>

record CompleteAuthorizationOptions =
  metadata_label :: string
  props :: Props
  request :: AuthRequest
  grant_scope :: "string list"
  userId :: string

text \<open>
  What one POST request meets:
  \<^item> \<open>formData\<close>: the fields of the form, \<open>None\<close> when \<^verbatim>\<open>c.req.formData()\<close> throws;
  \<^item> \<open>parse_state\<close>: \<^verbatim>\<open>JSON.parse(atob(state))\<close>, \<open>None\<close> when either throws;
  \<^item> \<open>fetch\<close>: the upstream, from the request to its answer;
  \<^item> \<open>completeAuthorization\<close>: the provider, giving \<^verbatim>\<open>redirectTo\<close>, \<open>None\<close> when it
    rejects;
  \<^item> \<open>parseRedirectApproval\<close>: the result of the call on the cloned request, that is
    \<^verbatim>\<open>state.oauthReqInfo\<close> and the headers, \<open>None\<close> when it throws;
  \<^item> \<open>Date_now\<close>: the value of \<^verbatim>\<open>Date.now()\<close>, in milliseconds.
\<close>

record post_env =
  formData :: "(string \<times> string) list option"
  parse_state :: "string \<Rightarrow> AuthRequest option"
  fetch :: "http_request \<Rightarrow> unit fetch_result"
  completeAuthorization :: "CompleteAuthorizationOptions \<Rightarrow> string option"
  parseRedirectApproval :: "(AuthRequest option \<times> (string \<times> string) list) option"
  Date_now :: nat

text \<open>
  What the handler answers: \<^verbatim>\<open>c.text(body, status)\<close>, \<^verbatim>\<open>Response.redirect(url)\<close>, the
  token entry page with its headers, or an exception that leaves the handler.
\<close>

datatype handler_result =
    Text string nat
  | Redirect string
  | TokenEntryPage AuthRequest "(string \<times> string) list"
  | Thrown

text \<open>The calls the handler makes to its collaborators, in order.\<close>

datatype event =
    Fetch http_request
  | CompleteAuthorization CompleteAuthorizationOptions
  | ParseRedirectApproval

definition verify_request :: "string \<Rightarrow> http_request" where
  "verify_request token =
     \<lparr>req_method = ''GET'', req_url = ''https://readwise.io/api/v2/auth/'', req_query = [],
      req_headers = [(''Authorization'', ''Token '' @ token)], req_body = None\<rparr>"

definition user_request :: "string \<Rightarrow> http_request" where
  "user_request token =
     \<lparr>req_method = ''GET'', req_url = ''https://readwise.io/api/v3/list/'',
      req_query = [(''pageCursor'', [])],
      req_headers = [(''Authorization'', ''Token '' @ token)], req_body = None\<rparr>"

text \<open>\<^verbatim>\<open>formData.get(name)\<close>: the first value of that name, or \<^verbatim>\<open>null\<close>.\<close>

definition FormData_get :: "(string \<times> string) list \<Rightarrow> string \<Rightarrow> string option" where
  "FormData_get fd n = map_of fd n"

definition grant_options :: "post_env \<Rightarrow> string \<Rightarrow> AuthRequest \<Rightarrow> CompleteAuthorizationOptions" where
  "grant_options env token oauthReqInfo =
     \<lparr>metadata_label = ''Readwise Reader User'',
      props = \<lparr>apiToken = token\<rparr>,
      request = oauthReqInfo,
      grant_scope = scope oauthReqInfo,
      userId = ''reader_user_'' @ show_nat (Date_now env)\<rparr>"

text \<open>The entry \<^verbatim>\<open>"Content-Type": ...\<close> written after the spread \<^verbatim>\<open>...headers\<close>.\<close>

fun assign_header :: "(string \<times> string) list \<Rightarrow> string \<Rightarrow> string \<Rightarrow> (string \<times> string) list" where
  "assign_header [] k v = [(k, v)]"
| "assign_header ((k', v') # kvs) k v =
     (if k' = k then (k, v) # kvs else (k', v') # assign_header kvs k v)"

text \<open>
  The handler of \<^verbatim>\<open>app.post("/authorize")\<close>. A missing \<^verbatim>\<open>state\<close> field is
  \<^verbatim>\<open>null\<close>, which \<^verbatim>\<open>atob\<close> reads as the string \<^verbatim>\<open>"null"\<close>.
\<close>

definition post_authorize :: "post_env \<Rightarrow> handler_result \<times> event list" where
  "post_authorize env =
     (let token = (case formData env of None \<Rightarrow> None | Some fd \<Rightarrow> FormData_get fd ''apiToken'')
      in if truthy token \<and> formData env \<noteq> None then
           (let state_field = FormData_get (the (formData env)) ''state'' in
            case parse_state env (case state_field of None \<Rightarrow> ''null'' | Some s \<Rightarrow> s) of
              None \<Rightarrow> (Thrown, [])
            | Some oauthReqInfo \<Rightarrow>
                (case fetch env (verify_request (the token)) of
                   Rejected m \<Rightarrow> (Thrown, [Fetch (verify_request (the token))])
                 | Resolved verifyResponse \<Rightarrow>
                     if status verifyResponse \<noteq> 204
                     then (Text ''Invalid API token'' 400, [Fetch (verify_request (the token))])
                     else (case fetch env (user_request (the token)) of
                         Rejected m \<Rightarrow>
                           (Thrown, [Fetch (verify_request (the token)),
                                     Fetch (user_request (the token))])
                       | Resolved userResponse \<Rightarrow>
                           if \<not> ok userResponse
                           then (Text ''Failed to fetch user data'' 500,
                                 [Fetch (verify_request (the token)),
                                  Fetch (user_request (the token))])
                           else (let options = grant_options env (the token) oauthReqInfo;
                                     calls = [Fetch (verify_request (the token)),
                                              Fetch (user_request (the token)),
                                              CompleteAuthorization options]
                                 in case completeAuthorization env options of
                                      None \<Rightarrow> (Thrown, calls)
                                    | Some redirectTo \<Rightarrow> (Redirect redirectTo, calls)))))
         else (case parseRedirectApproval env of
                 None \<Rightarrow> (Thrown, [ParseRedirectApproval])
               | Some (oauthReqInfo, headers) \<Rightarrow>
                   (case oauthReqInfo of
                      None \<Rightarrow> (Text ''Invalid request'' 400, [ParseRedirectApproval])
                    | Some info \<Rightarrow>
                        (TokenEntryPage info
                           (assign_header headers ''Content-Type'' ''text/html; charset=utf-8''),
                         [ParseRedirectApproval]))))"

text \<open>The grants a run asked for: the arguments of its calls of \<^verbatim>\<open>completeAuthorization\<close>.\<close>

fun grants :: "event list \<Rightarrow> CompleteAuthorizationOptions list" where
  "grants [] = []"
| "grants (CompleteAuthorization options # es) = options # grants es"
| "grants (e # es) = grants es"

section \<open>Sample inputs\<close>

text \<open>A successful answer carrying a page.\<close>

definition page_response :: "'b \<Rightarrow> 'b fetch_result" where
  "page_response p = Resolved \<lparr>status = 200, statusText = ''OK'', body_json = Inr p\<rparr>"

definition sample_document :: "string \<Rightarrow> ReaderDocument" where
  "sample_document i =
     \<lparr>id_doc = i, url = ''https://read.readwise.io/read/'' @ i,
      source_url = ''https://example.com/'' @ i, title = ''Title'', author = Some ''Ann'',
      source = ''reader'', category = ''article'', location = ''later'',
      tags = Some [''work''], site_name = ''example.com'', word_count = 1200,
      created_at = ''2024-01-01T00:00:00Z'', updated_at = ''2024-01-02T00:00:00Z'',
      notes_doc = [], published_date = None, summary = Some ''Short'',
      image_url = [], parent_id = None,
      reading_progress = 413205265811243 / 562949953421312,
      first_opened_at = None, last_opened_at = None,
      saved_at = ''2024-01-01T00:00:00Z'', last_moved_at = ''2024-01-01T00:00:00Z''\<rparr>"

definition sample_page :: "string list \<Rightarrow> string option \<Rightarrow> ReaderListResponse" where
  "sample_page ids cursor =
     \<lparr>count = real (length ids), nextPageCursor = cursor, results = map sample_document ids\<rparr>"

definition sample_tag_page :: "string list \<Rightarrow> string option \<Rightarrow> ReaderTagsResponse" where
  "sample_tag_page ks cursor =
     \<lparr>count = real (length ks), nextPageCursor = cursor,
      results = map (\<lambda>k. \<lparr>key = k, name = k\<rparr>) ks\<rparr>"

definition sample_args :: "real \<Rightarrow> listDocuments_args" where
  "sample_args limit =
     \<lparr>ld_location = Some Later, ld_category = None, ld_tag = Some ''work'',
      ld_updatedAfter = None, ld_limit = limit\<rparr>"

definition sample_create_args :: createDocument_args where
  "sample_create_args =
     \<lparr>cd_url = ''https://example.com/a'', cd_html = None, cd_should_clean_html = None,
      cd_title = Some ''A title'', cd_author = None, cd_summary = None,
      cd_published_date = None, cd_image_url = None, cd_location = None,
      cd_category = None, cd_saved_using = None, cd_tags = None, cd_notes = None\<rparr>"

text \<open>
  A token submission: the upstream answers the verification with \<open>verifyStatus\<close> and the
  list request with \<open>listStatus\<close>, and the clock reads \<open>now\<close>.
\<close>

definition sample_env :: "string \<Rightarrow> nat \<Rightarrow> nat \<Rightarrow> nat \<Rightarrow> post_env" where
  "sample_env token verifyStatus listStatus now =
     \<lparr>formData = Some [(''state'', ''e30=''), (''apiToken'', token)],
      parse_state = (\<lambda>s. Some \<lparr>clientId = ''client'', redirectUri = ''https://client.example/cb'',
                                scope = [], state = ''xyz''\<rparr>),
      fetch = (\<lambda>q. Resolved
                 \<lparr>status = (if req_url q = ''https://readwise.io/api/v2/auth/''
                             then verifyStatus else listStatus),
                  statusText = [], body_json = Inr ()\<rparr>),
      completeAuthorization = (\<lambda>options. Some ''https://client.example/cb?code=1''),
      parseRedirectApproval = None,
      Date_now = now\<rparr>"

section \<open>Auxiliary notions for the statements\<close>

text \<open>A conditional assignment \<^verbatim>\<open>if (c) payload.k = v\<close>.\<close>

definition assign_if ::
  "bool \<Rightarrow> string \<Rightarrow> json \<Rightarrow> (string \<times> json) list \<Rightarrow> (string \<times> json) list" where
  "assign_if c k v kvs = (if c then assign kvs k v else kvs)"

text \<open>The keys of the JSON object a request carries as its body.\<close>

definition body_keys :: "http_request \<Rightarrow> string list" where
  "body_keys q = (case req_body q of Some (JObject kvs) \<Rightarrow> map fst kvs | _ \<Rightarrow> [])"

text \<open>The JSON object of a successful listDocuments result.\<close>

definition documents_result :: "listDocuments_args \<Rightarrow> ReaderDocument list \<Rightarrow> ToolResult" where
  "documents_result a docs =
     \<lparr>content_text = JSON_stringify (JObject
         [(''documents'', JArray (map formatDocument docs)),
          (''count'', JNumber (real (length docs))),
          (''filters'', listDocuments_filters a)]),
      isError = False\<rparr>"

section \<open>Arithmetic and strings\<close>

lemma toint: "t \<le> L \<Longrightarrow> ToIntegerOrInfinity (real L - real t) = int (L - t)"
proof -
  assume le: "t \<le> L"
  have e: "real L - real t = real (L - t)" using le by (simp only: of_nat_diff)
  have "\<not> real (L - t) < 0" by simp
  then show ?thesis unfolding ToIntegerOrInfinity_def e by (simp only: if_False floor_of_nat)
qed

lemma slice0_whole: "t \<le> L \<Longrightarrow> slice0 xs (real L - real t) = take (L - t) xs"
proof -
  assume le: "t \<le> L"
  have "slice0 xs (real L - real t) = take (nat (int (L - t))) xs"
    unfolding slice0_def Let_def toint [OF le] by simp
  then show ?thesis by (simp only: nat_int)
qed

lemma show_404: "show_nat 404 = ''404''"
  by (simp add: show_nat.simps digit_def)

lemma take_nonempty: "xs \<noteq> [] \<Longrightarrow> 1 \<le> k \<Longrightarrow> take k xs \<noteq> []"
  by (cases xs; cases k) auto

section \<open>The pagination loops\<close>

lemma serves_cases:
  "serves r p \<Longrightarrow> \<exists>response. r = Resolved response \<and> ok response \<and> body_json response = Inr p"
  by (cases r) (auto simp: serves_def)

lemma serves_page_response: "serves (page_response p) p"
  by (simp add: serves_def page_response_def ok_def)

lemma listDocuments_loop_served:
  assumes "serves r p"
  shows "listDocuments_loop tok limit ps cur acc t (r # rs) =
     (if real (t + length (slice0 (results p) (limit - real t))) \<ge> limit \<or> \<not> truthy (nextPageCursor p)
      then (Some (Inr (acc @ slice0 (results p) (limit - real t))), [list_request tok (next_params ps cur)])
      else (case listDocuments_loop tok limit (next_params ps cur) (nextPageCursor p)
                  (acc @ slice0 (results p) (limit - real t))
                  (t + length (slice0 (results p) (limit - real t))) rs of
              (res, reqs) \<Rightarrow> (res, list_request tok (next_params ps cur) # reqs)))"
proof -
  from serves_cases [OF assms] obtain response where r: "r = Resolved response"
    and okr: "ok response" and body: "body_json response = Inr p" by blast
  show ?thesis
    unfolding r listDocuments_loop.simps Let_def next_params_def
    by (simp only: okr body not_True_eq_False if_False fetch_result.case sum.case)
qed

lemma tagList_loop_served:
  assumes "serves r p"
  shows "tagList_loop tok limit cur acc t (r # rs) =
     (if real (t + length (slice0 (results p) (limit - real t))) \<ge> limit \<or> \<not> truthy (nextPageCursor p)
      then (Some (Inr (acc @ slice0 (results p) (limit - real t))), [tags_request tok (next_params [] cur)])
      else (case tagList_loop tok limit (nextPageCursor p)
                  (acc @ slice0 (results p) (limit - real t))
                  (t + length (slice0 (results p) (limit - real t))) rs of
              (res, reqs) \<Rightarrow> (res, tags_request tok (next_params [] cur) # reqs)))"
proof -
  from serves_cases [OF assms] obtain response where r: "r = Resolved response"
    and okr: "ok response" and body: "body_json response = Inr p" by blast
  show ?thesis
    unfolding r tagList_loop.simps Let_def next_params_def
    by (simp only: okr body not_True_eq_False if_False fetch_result.case sum.case)
qed

lemma stops_Cons:
  "ps \<noteq> [] \<Longrightarrow> stops limit t (p # ps) =
     stops limit (t + length (slice0 (results p) (limit - real t))) ps"
  by (simp add: stops_def)

lemma stops_single:
  "stops limit t [p] = (real (t + length (slice0 (results p) (limit - real t))) \<ge> limit
      \<or> \<not> truthy (nextPageCursor p))"
  by (simp add: stops_def)

lemma listDocuments_loop_stops:
  assumes "list_all2 serves rs pages" "pages \<noteq> []" "\<not> truthy (nextPageCursor (last pages))"
  shows "\<exists>docs reqs. listDocuments_loop tok limit ps cur acc t rs = (Some (Inr docs), reqs)
           \<and> 1 \<le> length reqs \<and> length reqs \<le> length pages
           \<and> stops limit t (take (length reqs) pages)
           \<and> (\<forall>k. 1 \<le> k \<and> k < length reqs \<longrightarrow> \<not> stops limit t (take k pages))"
  using assms
proof (induction rs arbitrary: pages ps cur acc t)
  case Nil
  then show ?case by simp
next
  case (Cons r rs)
  from Cons.prems(1) obtain p pages' where pages: "pages = p # pages'"
    and sv: "serves r p" and rest: "list_all2 serves rs pages'"
    by (auto simp: list_all2_Cons1)
  define t' where "t' = t + length (slice0 (results p) (limit - real t))"
  define ps' where "ps' = next_params ps cur"
  define acc' where "acc' = acc @ slice0 (results p) (limit - real t)"
  note step = listDocuments_loop_served [OF sv, of tok limit ps cur acc t rs,
      folded t'_def ps'_def acc'_def]
  show ?case
  proof (cases "real t' \<ge> limit \<or> \<not> truthy (nextPageCursor p)")
    case True
    then have "listDocuments_loop tok limit ps cur acc t (r # rs)
                 = (Some (Inr acc'), [list_request tok ps'])"
      by (simp only: step if_True)
    moreover have "stops limit t [p]" using True by (simp only: stops_single t'_def)
    ultimately show ?thesis unfolding pages by simp
  next
    case False
    then have ne: "pages' \<noteq> []" using Cons.prems(3) pages by auto
    then have lastp: "\<not> truthy (nextPageCursor (last pages'))" using Cons.prems(3) pages by simp
    from Cons.IH [OF rest ne lastp, of ps' "nextPageCursor p" acc' t']
    obtain docs reqs where
      run: "listDocuments_loop tok limit ps' (nextPageCursor p) acc' t' rs = (Some (Inr docs), reqs)"
      and n1: "1 \<le> length reqs" and n2: "length reqs \<le> length pages'"
      and st: "stops limit t' (take (length reqs) pages')"
      and nst: "\<forall>k. 1 \<le> k \<and> k < length reqs \<longrightarrow> \<not> stops limit t' (take k pages')"
      by blast
    have eq: "listDocuments_loop tok limit ps cur acc t (r # rs)
                 = (Some (Inr docs), list_request tok ps' # reqs)"
      using False by (simp only: step if_False run prod.case)
    have A: "stops limit t (take (Suc (length reqs)) pages)"
      using st take_nonempty [OF ne n1] by (simp add: pages stops_Cons t'_def)
    have B: "\<not> stops limit t (take k pages)" if k: "1 \<le> k" "k < Suc (length reqs)" for k
    proof (cases k)
      case 0
      then show ?thesis using k by simp
    next
      case (Suc j)
      show ?thesis
      proof (cases "j = 0")
        case True
        then show ?thesis using False by (simp add: Suc pages stops_single t'_def)
      next
        case nz: False
        then have j: "1 \<le> j" "j < length reqs" using k Suc by auto
        from nst j have "\<not> stops limit t' (take j pages')" by blast
        then show ?thesis using take_nonempty [OF ne j(1)]
          by (simp add: Suc pages stops_Cons t'_def)
      qed
    qed
    have "1 \<le> length (list_request tok ps' # reqs)"
         "length (list_request tok ps' # reqs) \<le> length pages"
      using n2 by (simp_all add: pages)
    moreover have "stops limit t (take (length (list_request tok ps' # reqs)) pages)"
      using A by simp
    moreover have "\<forall>k. 1 \<le> k \<and> k < length (list_request tok ps' # reqs)
                     \<longrightarrow> \<not> stops limit t (take k pages)"
      using B by simp
    ultimately show ?thesis using eq by blast
  qed
qed

lemma tagList_loop_stops:
  assumes "list_all2 serves rs pages" "pages \<noteq> []" "\<not> truthy (nextPageCursor (last pages))"
  shows "\<exists>found reqs. tagList_loop tok limit cur acc t rs = (Some (Inr found), reqs)
           \<and> 1 \<le> length reqs \<and> length reqs \<le> length pages
           \<and> stops limit t (take (length reqs) pages)
           \<and> (\<forall>k. 1 \<le> k \<and> k < length reqs \<longrightarrow> \<not> stops limit t (take k pages))"
  using assms
proof (induction rs arbitrary: pages cur acc t)
  case Nil
  then show ?case by simp
next
  case (Cons r rs)
  from Cons.prems(1) obtain p pages' where pages: "pages = p # pages'"
    and sv: "serves r p" and rest: "list_all2 serves rs pages'"
    by (auto simp: list_all2_Cons1)
  define t' where "t' = t + length (slice0 (results p) (limit - real t))"
  define q where "q = tags_request tok (next_params [] cur)"
  define acc' where "acc' = acc @ slice0 (results p) (limit - real t)"
  note step = tagList_loop_served [OF sv, of tok limit cur acc t rs,
      folded t'_def q_def acc'_def]
  show ?case
  proof (cases "real t' \<ge> limit \<or> \<not> truthy (nextPageCursor p)")
    case True
    then have "tagList_loop tok limit cur acc t (r # rs) = (Some (Inr acc'), [q])"
      by (simp only: step if_True)
    moreover have "stops limit t [p]" using True by (simp only: stops_single t'_def)
    ultimately show ?thesis unfolding pages by simp
  next
    case False
    then have ne: "pages' \<noteq> []" using Cons.prems(3) pages by auto
    then have lastp: "\<not> truthy (nextPageCursor (last pages'))" using Cons.prems(3) pages by simp
    from Cons.IH [OF rest ne lastp, of "nextPageCursor p" acc' t']
    obtain found reqs where
      run: "tagList_loop tok limit (nextPageCursor p) acc' t' rs = (Some (Inr found), reqs)"
      and n1: "1 \<le> length reqs" and n2: "length reqs \<le> length pages'"
      and st: "stops limit t' (take (length reqs) pages')"
      and nst: "\<forall>k. 1 \<le> k \<and> k < length reqs \<longrightarrow> \<not> stops limit t' (take k pages')"
      by blast
    have eq: "tagList_loop tok limit cur acc t (r # rs) = (Some (Inr found), q # reqs)"
      using False by (simp only: step if_False run prod.case)
    have A: "stops limit t (take (Suc (length reqs)) pages)"
      using st take_nonempty [OF ne n1] by (simp add: pages stops_Cons t'_def)
    have B: "\<not> stops limit t (take k pages)" if k: "1 \<le> k" "k < Suc (length reqs)" for k
    proof (cases k)
      case 0
      then show ?thesis using k by simp
    next
      case (Suc j)
      show ?thesis
      proof (cases "j = 0")
        case True
        then show ?thesis using False by (simp add: Suc pages stops_single t'_def)
      next
        case nz: False
        then have j: "1 \<le> j" "j < length reqs" using k Suc by auto
        from nst j have "\<not> stops limit t' (take j pages')" by blast
        then show ?thesis using take_nonempty [OF ne j(1)]
          by (simp add: Suc pages stops_Cons t'_def)
      qed
    qed
    have "1 \<le> length (q # reqs)" "length (q # reqs) \<le> length pages"
      using n2 by (simp_all add: pages)
    moreover have "stops limit t (take (length (q # reqs)) pages)"
      using A by simp
    moreover have "\<forall>k. 1 \<le> k \<and> k < length (q # reqs) \<longrightarrow> \<not> stops limit t (take k pages)"
      using B by simp
    ultimately show ?thesis using eq by blast
  qed
qed

lemma listDocuments_loop_shape:
  assumes "list_all2 serves rs pages" "length acc = t" "t < L"
      and "listDocuments_loop tok (real L) ps cur acc t rs = (Some res, reqs)"
  shows "1 \<le> length reqs \<and> length reqs \<le> length pages \<and>
         t + length (concat (map results (take (length reqs - 1) pages))) < L \<and>
         res = Inr (acc @ concat (map results (take (length reqs - 1) pages)) @
                    take (L - (t + length (concat (map results (take (length reqs - 1) pages)))))
                         (results (pages ! (length reqs - 1))))"
  using assms
proof (induction rs arbitrary: pages ps cur acc t res reqs)
  case Nil
  then show ?case by simp
next
  case (Cons r rs)
  from Cons.prems(1) obtain p pages' where pages: "pages = p # pages'"
    and sv: "serves r p" and rest: "list_all2 serves rs pages'"
    by (auto simp: list_all2_Cons1)
  have tL: "t \<le> L" using Cons.prems(3) by simp
  define add where "add = take (L - t) (results p)"
  have sl: "slice0 (results p) (real L - real t) = add"
    unfolding add_def by (rule slice0_whole [OF tL])
  define t' where "t' = t + length add"
  define ps' where "ps' = next_params ps cur"
  define acc' where "acc' = acc @ add"
  note step = listDocuments_loop_served [OF sv, of tok "real L" ps cur acc t rs,
      unfolded sl, folded t'_def ps'_def acc'_def]
  show ?case
  proof (cases "real t' \<ge> real L \<or> \<not> truthy (nextPageCursor p)")
    case True
    then have "listDocuments_loop tok (real L) ps cur acc t (r # rs)
                 = (Some (Inr acc'), [list_request tok ps'])"
      by (simp only: step if_True)
    with Cons.prems(4) have "res = Inr acc'" "reqs = [list_request tok ps']" by simp_all
    then show ?thesis using Cons.prems(3) by (simp add: pages acc'_def add_def)
  next
    case False
    obtain res' reqs' where run:
      "listDocuments_loop tok (real L) ps' (nextPageCursor p) acc' t' rs = (res', reqs')"
      by (cases "listDocuments_loop tok (real L) ps' (nextPageCursor p) acc' t' rs") blast
    have "listDocuments_loop tok (real L) ps cur acc t (r # rs)
                 = (res', list_request tok ps' # reqs')"
      using False by (simp only: step if_False run prod.case)
    with Cons.prems(4) have res': "res' = Some res" and reqs: "reqs = list_request tok ps' # reqs'"
      by simp_all
    from False have t'L: "t' < L" by simp
    then have whole: "add = results p" unfolding t'_def add_def by auto
    have len: "length acc' = t'" using Cons.prems(2) by (simp add: acc'_def t'_def)
    from Cons.IH [OF rest len t'L run [unfolded res']]
    have n1: "1 \<le> length reqs'" and n2: "length reqs' \<le> length pages'"
      and lt: "t' + length (concat (map results (take (length reqs' - 1) pages'))) < L"
      and r: "res = Inr (acc' @ concat (map results (take (length reqs' - 1) pages')) @
                    take (L - (t' + length (concat (map results (take (length reqs' - 1) pages')))))
                         (results (pages' ! (length reqs' - 1))))"
      by simp_all
    obtain m where m: "length reqs' = Suc m" using n1 by (cases reqs') auto
    show ?thesis
      using n2 lt r unfolding reqs pages m acc'_def t'_def whole
      by (simp add: add.assoc m)
  qed
qed

section \<open>The requests of listDocuments\<close>

lemma URLSearchParams_set_other:
  "n \<noteq> m \<Longrightarrow> filter (\<lambda>p. fst p = m) (URLSearchParams_set ps n v) = filter (\<lambda>p. fst p = m) ps"
proof (induction ps)
  case Nil
  then show ?case by simp
next
  case (Cons a ps)
  obtain k w where a: "a = (k, w)" by (cases a)
  have "filter (\<lambda>p. fst p = m) (filter (\<lambda>p. fst p \<noteq> n) ps) = filter (\<lambda>p. fst p = m) ps"
    using Cons.prems by (induction ps) auto
  then show ?case using Cons by (auto simp: a)
qed

lemma next_params_other:
  "m \<noteq> ''pageCursor'' \<Longrightarrow>
   filter (\<lambda>p. fst p = m) (next_params ps cur) = filter (\<lambda>p. fst p = m) ps"
  unfolding next_params_def by (simp add: URLSearchParams_set_other)

lemma listDocuments_loop_first:
  "\<exists>res rest. listDocuments_loop tok limit ps cur acc t (r # rs)
       = (res, list_request tok (next_params ps cur) # rest) \<and>
     (rest = [] \<or> (\<exists>cur' acc' t'. rest =
         snd (listDocuments_loop tok limit (next_params ps cur) cur' acc' t' rs)))"
proof (cases r)
  case (Rejected m)
  then show ?thesis by (simp add: next_params_def)
next
  case (Resolved response)
  show ?thesis
  proof (cases "ok response")
    case False
    then show ?thesis by (simp add: Resolved next_params_def)
  next
    case True
    show ?thesis
    proof (cases "body_json response")
      case (Inl m)
      then show ?thesis by (simp add: Resolved True next_params_def)
    next
      case (Inr p)
      have sv: "serves r p" by (simp add: serves_def Resolved True Inr)
      define acc' where "acc' = acc @ slice0 (results p) (limit - real t)"
      define t' where "t' = t + length (slice0 (results p) (limit - real t))"
      obtain res' reqs' where run: "listDocuments_loop tok limit (next_params ps cur)
          (nextPageCursor p) acc' t' rs = (res', reqs')"
        by (cases "listDocuments_loop tok limit (next_params ps cur) (nextPageCursor p) acc' t' rs")
           blast
      then have sn: "reqs' = snd (listDocuments_loop tok limit (next_params ps cur)
          (nextPageCursor p) acc' t' rs)" by simp
      note step = listDocuments_loop_served [OF sv, of tok limit ps cur acc t rs,
          folded t'_def acc'_def]
      show ?thesis
      proof (cases "real t' \<ge> limit \<or> \<not> truthy (nextPageCursor p)")
        case stop: True
        then have "listDocuments_loop tok limit ps cur acc t (r # rs)
             = (Some (Inr acc'), [list_request tok (next_params ps cur)])"
          by (simp only: step if_True)
        then show ?thesis by blast
      next
        case go: False
        then have "listDocuments_loop tok limit ps cur acc t (r # rs)
             = (res', list_request tok (next_params ps cur) # reqs')"
          by (simp only: step if_False run prod.case)
        then show ?thesis using sn by blast
      qed
    qed
  qed
qed

lemma listDocuments_loop_nonempty:
  "snd (listDocuments_loop tok limit ps cur acc t (r # rs)) \<noteq> []"
  using listDocuments_loop_first [of tok limit ps cur acc t r rs] by auto

lemma listDocuments_loop_requests:
  assumes "filter (\<lambda>p. fst p = m) ps = vs" "m \<noteq> ''pageCursor''"
  shows "\<forall>q \<in> set (snd (listDocuments_loop tok limit ps cur acc t rs)).
           filter (\<lambda>p. fst p = m) (req_query q) = vs \<and>
           req_url q = ''https://readwise.io/api/v3/list/''"
  using assms
proof (induction rs arbitrary: ps cur acc t)
  case Nil
  then show ?case by simp
next
  case (Cons r rs)
  from listDocuments_loop_first [of tok limit ps cur acc t r rs]
  obtain res rest where
    eq: "listDocuments_loop tok limit ps cur acc t (r # rs)
           = (res, list_request tok (next_params ps cur) # rest)"
    and rest: "rest = [] \<or> (\<exists>cur' acc' t'. rest =
         snd (listDocuments_loop tok limit (next_params ps cur) cur' acc' t' rs))"
    by blast
  have keep: "filter (\<lambda>p. fst p = m) (next_params ps cur) = vs"
    using Cons.prems by (simp add: next_params_other)
  have hd: "filter (\<lambda>p. fst p = m) (req_query (list_request tok (next_params ps cur))) = vs"
           "req_url (list_request tok (next_params ps cur)) = ''https://readwise.io/api/v3/list/''"
    using keep by (simp_all add: list_request_def)
  have tl: "\<forall>q \<in> set rest. filter (\<lambda>p. fst p = m) (req_query q) = vs \<and>
           req_url q = ''https://readwise.io/api/v3/list/''"
    using rest Cons.IH [OF keep Cons.prems(2)] by auto
  show ?case unfolding eq using hd tl by simp
qed

lemma listDocuments_params_html:
  "filter (\<lambda>p. fst p = ''withHtmlContent'') (listDocuments_params a) = [(''withHtmlContent'', ''true'')]"
  by (simp add: listDocuments_params_def URLSearchParams_append_def Let_def split: option.splits)

lemma listDocuments_requests:
  "snd (listDocuments tok a upstream)
     = snd (listDocuments_loop tok (ld_limit a) (listDocuments_params a) None [] 0 upstream)"
  by (simp add: listDocuments_def Let_def split: prod.splits option.splits sum.splits)

lemma listDocuments_done:
  "listDocuments_loop tok (ld_limit a) (listDocuments_params a) None [] 0 upstream
      = (Some (Inr docs), reqs) \<Longrightarrow>
   listDocuments tok a upstream = (Some (documents_result a docs), reqs)"
  by (simp add: listDocuments_def Let_def documents_result_def)

lemma tagList_done:
  "tagList_loop tok limit None [] 0 upstream = (Some (Inr found), reqs) \<Longrightarrow>
   tagList tok limit upstream =
     (Some \<lparr>content_text = JSON_stringify (JObject
                     [(''tags'', JArray (map tag_json found)),
                      (''count'', JNumber (real (length found)))]),
            isError = False\<rparr>, reqs)"
  by (simp add: tagList_def)

section \<open>The payload of createDocument\<close>

lemma keys_assign: "fst ` set (assign kvs k v) = insert k (fst ` set kvs)"
  by (induction kvs k v rule: assign.induct) auto

lemma keys_assign_if:
  "k \<in> fst ` set (assign_if c k' v kvs) \<longleftrightarrow> (c \<and> k = k') \<or> k \<in> fst ` set kvs"
  by (auto simp: assign_if_def keys_assign)

lemma map_of_assign: "map_of (assign kvs k v) = (map_of kvs)(k \<mapsto> v)"
  by (induction kvs k v rule: assign.induct) auto

lemma map_of_assign_if_other:
  "k \<noteq> k' \<Longrightarrow> map_of (assign_if c k' v kvs) k = map_of kvs k"
  by (simp add: assign_if_def map_of_assign)

lemma createDocument_payload_nested:
  "createDocument_payload a =
     assign_if (truthy (cd_notes a)) ''notes'' (JString (the (cd_notes a)))
     (assign_if (cd_tags a \<noteq> None) ''tags'' (JArray (map JString (the (cd_tags a))))
     (assign_if (truthy (cd_saved_using a)) ''saved_using'' (JString (the (cd_saved_using a)))
     (assign_if (cd_category a \<noteq> None) ''category''
         (JString (doc_category_name (the (cd_category a))))
     (assign_if (cd_location a \<noteq> None) ''location''
         (JString (save_location_name (the (cd_location a))))
     (assign_if (truthy (cd_image_url a)) ''image_url'' (JString (the (cd_image_url a)))
     (assign_if (truthy (cd_published_date a)) ''published_date''
         (JString (the (cd_published_date a)))
     (assign_if (truthy (cd_summary a)) ''summary'' (JString (the (cd_summary a)))
     (assign_if (truthy (cd_author a)) ''author'' (JString (the (cd_author a)))
     (assign_if (truthy (cd_title a)) ''title'' (JString (the (cd_title a)))
     (assign_if (cd_should_clean_html a \<noteq> None) ''should_clean_html''
         (JBool (the (cd_should_clean_html a)))
     (assign_if (truthy (cd_html a)) ''html'' (JString (the (cd_html a)))
        [(''url'', JString (cd_url a))])))))))))))"
  unfolding createDocument_payload_def assign_if_def [symmetric] Let_def ..

lemma createDocument_payload_keys:
  "k \<in> fst ` set (createDocument_payload a) \<longleftrightarrow>
     (truthy (cd_notes a) \<and> k = ''notes'') \<or>
     (cd_tags a \<noteq> None \<and> k = ''tags'') \<or>
     (truthy (cd_saved_using a) \<and> k = ''saved_using'') \<or>
     (cd_category a \<noteq> None \<and> k = ''category'') \<or>
     (cd_location a \<noteq> None \<and> k = ''location'') \<or>
     (truthy (cd_image_url a) \<and> k = ''image_url'') \<or>
     (truthy (cd_published_date a) \<and> k = ''published_date'') \<or>
     (truthy (cd_summary a) \<and> k = ''summary'') \<or>
     (truthy (cd_author a) \<and> k = ''author'') \<or>
     (truthy (cd_title a) \<and> k = ''title'') \<or>
     (cd_should_clean_html a \<noteq> None \<and> k = ''should_clean_html'') \<or>
     (truthy (cd_html a) \<and> k = ''html'') \<or>
     k = ''url''"
  unfolding createDocument_payload_nested
  by (simp only: keys_assign_if list.set image_insert image_empty fst_conv insert_iff
        empty_iff simp_thms)

lemma createDocument_payload_url:
  "map_of (createDocument_payload a) ''url'' = Some (JString (cd_url a))"
  unfolding createDocument_payload_nested by (simp add: map_of_assign_if_other)

lemma createDocument_request:
  "snd (createDocument tok a upstream) = save_request tok (createDocument_payload a)"
  by (simp add: createDocument_def Let_def split: fetch_result.splits sum.splits)

section \<open>The branches of POST /authorize\<close>

lemma post_authorize_token_branch:
  assumes "formData env = Some fd" "FormData_get fd ''apiToken'' = Some token" "token \<noteq> []"
    and "parse_state env (case FormData_get fd ''state'' of None \<Rightarrow> ''null'' | Some s \<Rightarrow> s)
           = Some info"
  shows "post_authorize env =
     (case fetch env (verify_request token) of
        Rejected m \<Rightarrow> (Thrown, [Fetch (verify_request token)])
      | Resolved verifyResponse \<Rightarrow>
          if status verifyResponse \<noteq> 204
          then (Text ''Invalid API token'' 400, [Fetch (verify_request token)])
          else (case fetch env (user_request token) of
              Rejected m \<Rightarrow>
                (Thrown, [Fetch (verify_request token), Fetch (user_request token)])
            | Resolved userResponse \<Rightarrow>
                if \<not> ok userResponse
                then (Text ''Failed to fetch user data'' 500,
                      [Fetch (verify_request token), Fetch (user_request token)])
                else (case completeAuthorization env (grant_options env token info) of
                        None \<Rightarrow> (Thrown, [Fetch (verify_request token),
                                   Fetch (user_request token),
                                   CompleteAuthorization (grant_options env token info)])
                      | Some redirectTo \<Rightarrow> (Redirect redirectTo,
                                  [Fetch (verify_request token),
                                   Fetch (user_request token),
                                   CompleteAuthorization (grant_options env token info)]))))"
  using assms by (simp add: post_authorize_def Let_def split: fetch_result.splits option.splits)

lemma post_authorize_approval_branch:
  assumes "\<not> (\<exists>fd token. formData env = Some fd \<and> FormData_get fd ''apiToken'' = Some token
               \<and> token \<noteq> [])"
  shows "grants (snd (post_authorize env)) = []"
proof -
  have "\<not> (truthy (case formData env of None \<Rightarrow> None | Some fd \<Rightarrow> FormData_get fd ''apiToken'')
           \<and> formData env \<noteq> None)"
    using assms by (cases "formData env") (auto elim: truthy.elims)
  then show ?thesis
    by (auto simp: post_authorize_def Let_def split: option.splits prod.splits)
qed

lemma post_authorize_bad_state:
  assumes "formData env = Some fd" "FormData_get fd ''apiToken'' = Some token" "token \<noteq> []"
    and "parse_state env (case FormData_get fd ''state'' of None \<Rightarrow> ''null'' | Some s \<Rightarrow> s)
           = None"
  shows "post_authorize env = (Thrown, [])"
  using assms by (simp add: post_authorize_def Let_def)

section \<open>Token verification\<close>

text \<open>
  Claim C1. A POST to /authorize whose form has a non-empty \<^verbatim>\<open>apiToken\<close> field, and
  whose \<^verbatim>\<open>state\<close> field decodes, sends the verification request
  \<^verbatim>\<open>GET /api/v2/auth/\<close>. When the upstream answers it with status 204 the handler
  goes on to the next stage: its next call is the list request, and its answer is not the
  rejection. For every other status the handler answers HTTP 400 with the body
  \<^verbatim>\<open>Invalid API token\<close>, the verification request is its only call, and
  \<^verbatim>\<open>completeAuthorization\<close> is not called.
\<close>

theorem post_authorize_verification:
  assumes "formData env = Some fd" "FormData_get fd ''apiToken'' = Some token" "token \<noteq> []"
    and "parse_state env (case FormData_get fd ''state'' of None \<Rightarrow> ''null'' | Some s \<Rightarrow> s)
           = Some info"
    and "fetch env (verify_request token) = Resolved verifyResponse"
  shows "(status verifyResponse = 204 \<longrightarrow>
            take 2 (snd (post_authorize env))
              = [Fetch (verify_request token), Fetch (user_request token)] \<and>
            fst (post_authorize env) \<noteq> Text ''Invalid API token'' 400) \<and>
         (status verifyResponse \<noteq> 204 \<longrightarrow>
            post_authorize env = (Text ''Invalid API token'' 400, [Fetch (verify_request token)]) \<and>
            grants (snd (post_authorize env)) = [])"
  unfolding post_authorize_token_branch [OF assms(1-4)] assms(5)
  by (simp split: fetch_result.splits option.splits)

theorem post_authorize_verification_witness:
  "post_authorize (sample_env ''readwise_A'' 401 200 1700000000000)
     = (Text ''Invalid API token'' 400, [Fetch (verify_request ''readwise_A'')]) \<and>
   take 2 (snd (post_authorize (sample_env ''readwise_A'' 204 200 1700000000000)))
     = [Fetch (verify_request ''readwise_A''), Fetch (user_request ''readwise_A'')]"
proof -
  let ?info = "\<lparr>clientId = ''client'', redirectUri = ''https://client.example/cb'',
                 scope = [], state = ''xyz''\<rparr>"
  let ?fd = "[(''state'', ''e30=''), (''apiToken'', ''readwise_A'')]"
  have a: "formData (sample_env ''readwise_A'' v l n) = Some ?fd" for v l n
    by (simp add: sample_env_def)
  have b: "FormData_get ?fd ''apiToken'' = Some ''readwise_A''" by (simp add: FormData_get_def)
  have c: "''readwise_A'' \<noteq> []" by simp
  have d: "parse_state (sample_env ''readwise_A'' v l n)
             (case FormData_get ?fd ''state'' of None \<Rightarrow> ''null'' | Some s \<Rightarrow> s) = Some ?info"
    for v l n  by (simp add: sample_env_def)
  have e: "fetch (sample_env ''readwise_A'' v l n) (verify_request ''readwise_A'')
             = Resolved \<lparr>status = v, statusText = [], body_json = Inr ()\<rparr>" for v l n
    by (simp add: sample_env_def verify_request_def)
  show ?thesis
    using post_authorize_verification [OF a b c d e, of 401 200 1700000000000]
          post_authorize_verification [OF a b c d e, of 204 200 1700000000000]
    by simp
qed

section \<open>No partial grant\<close>

text \<open>
  Claim C2. In every run of the POST handler \<^verbatim>\<open>completeAuthorization\<close> is called at
  most once. When it is called, the form carried a token, the verification was answered
  with status 204, the list request was answered with a 2xx status, and the call comes
  after both requests. When the verification succeeds and the list request is answered
  with a status outside 200..299, the handler answers HTTP 500 with the body
  \<^verbatim>\<open>Failed to fetch user data\<close> and \<^verbatim>\<open>completeAuthorization\<close> is not called.
\<close>

theorem post_authorize_no_partial_grant:
  "length (grants (snd (post_authorize env))) \<le> 1 \<and>
   (\<forall>options \<in> set (grants (snd (post_authorize env))).
      \<exists>fd token info verifyResponse userResponse.
        formData env = Some fd \<and> FormData_get fd ''apiToken'' = Some token \<and>
        fetch env (verify_request token) = Resolved verifyResponse \<and>
        status verifyResponse = 204 \<and>
        fetch env (user_request token) = Resolved userResponse \<and> ok userResponse \<and>
        options = grant_options env token info \<and>
        snd (post_authorize env) = [Fetch (verify_request token), Fetch (user_request token),
                                    CompleteAuthorization options]) \<and>
   (\<forall>fd token info verifyResponse userResponse.
        formData env = Some fd \<and> FormData_get fd ''apiToken'' = Some token \<and> token \<noteq> [] \<and>
        parse_state env (case FormData_get fd ''state'' of None \<Rightarrow> ''null'' | Some s \<Rightarrow> s)
           = Some info \<and>
        fetch env (verify_request token) = Resolved verifyResponse \<and>
        status verifyResponse = 204 \<and>
        fetch env (user_request token) = Resolved userResponse \<and> \<not> ok userResponse \<longrightarrow>
        post_authorize env = (Text ''Failed to fetch user data'' 500,
                              [Fetch (verify_request token), Fetch (user_request token)]) \<and>
        grants (snd (post_authorize env)) = [])"
proof (cases "\<exists>fd token. formData env = Some fd \<and> FormData_get fd ''apiToken'' = Some token
               \<and> token \<noteq> []")
  case False
  from post_authorize_approval_branch [OF False] False show ?thesis by auto
next
  case True
  then obtain fd token where fd: "formData env = Some fd"
    and tok: "FormData_get fd ''apiToken'' = Some token" and ne: "token \<noteq> []" by blast
  show ?thesis
  proof (cases "parse_state env (case FormData_get fd ''state'' of None \<Rightarrow> ''null'' | Some s \<Rightarrow> s)")
    case None
    from post_authorize_bad_state [OF fd tok ne None] fd tok None show ?thesis by auto
  next
    case (Some info)
    note eq = post_authorize_token_branch [OF fd tok ne Some]
    show ?thesis
    proof (intro conjI)
      show "length (grants (snd (post_authorize env))) \<le> 1"
        unfolding eq by (simp split: fetch_result.splits option.splits)
      show "\<forall>options \<in> set (grants (snd (post_authorize env))).
      \<exists>fd token info verifyResponse userResponse.
        formData env = Some fd \<and> FormData_get fd ''apiToken'' = Some token \<and>
        fetch env (verify_request token) = Resolved verifyResponse \<and>
        status verifyResponse = 204 \<and>
        fetch env (user_request token) = Resolved userResponse \<and> ok userResponse \<and>
        options = grant_options env token info \<and>
        snd (post_authorize env) = [Fetch (verify_request token), Fetch (user_request token),
                                    CompleteAuthorization options]"
        unfolding eq using fd tok
        by (auto split: fetch_result.splits option.splits if_splits)
      show "\<forall>fd token info verifyResponse userResponse.
        formData env = Some fd \<and> FormData_get fd ''apiToken'' = Some token \<and> token \<noteq> [] \<and>
        parse_state env (case FormData_get fd ''state'' of None \<Rightarrow> ''null'' | Some s \<Rightarrow> s)
           = Some info \<and>
        fetch env (verify_request token) = Resolved verifyResponse \<and>
        status verifyResponse = 204 \<and>
        fetch env (user_request token) = Resolved userResponse \<and> \<not> ok userResponse \<longrightarrow>
        post_authorize env = (Text ''Failed to fetch user data'' 500,
                              [Fetch (verify_request token), Fetch (user_request token)]) \<and>
        grants (snd (post_authorize env)) = []"
        unfolding eq using fd tok by auto
    qed
  qed
qed

theorem post_authorize_no_partial_grant_witness:
  "post_authorize (sample_env ''readwise_A'' 204 500 1700000000000)
     = (Text ''Failed to fetch user data'' 500,
        [Fetch (verify_request ''readwise_A''), Fetch (user_request ''readwise_A'')]) \<and>
   length (grants (snd (post_authorize (sample_env ''readwise_A'' 204 200 1700000000000)))) = 1"
proof -
  let ?env = "sample_env ''readwise_A'' 204 500 1700000000000"
  let ?info = "\<lparr>clientId = ''client'', redirectUri = ''https://client.example/cb'',
                 scope = [], state = ''xyz''\<rparr>"
  let ?fd = "[(''state'', ''e30=''), (''apiToken'', ''readwise_A'')]"
  have pre: "formData ?env = Some ?fd \<and> FormData_get ?fd ''apiToken'' = Some ''readwise_A'' \<and>
        ''readwise_A'' \<noteq> [] \<and>
        parse_state ?env (case FormData_get ?fd ''state'' of None \<Rightarrow> ''null'' | Some s \<Rightarrow> s)
           = Some ?info \<and>
        fetch ?env (verify_request ''readwise_A'')
           = Resolved \<lparr>status = 204, statusText = [], body_json = Inr ()\<rparr> \<and>
        status \<lparr>status = 204, statusText = [], body_json = Inr ()\<rparr> = 204 \<and>
        fetch ?env (user_request ''readwise_A'')
           = Resolved \<lparr>status = 500, statusText = [], body_json = Inr ()\<rparr> \<and>
        \<not> ok \<lparr>status = 500, statusText = [], body_json = Inr ()\<rparr>"
    by (simp add: sample_env_def FormData_get_def verify_request_def user_request_def ok_def)
  have one: "length (grants (snd (post_authorize (sample_env ''readwise_A'' 204 200 1700000000000)))) \<ge> 1"
    by (simp add: post_authorize_def sample_env_def FormData_get_def verify_request_def
        user_request_def ok_def Let_def)
  show ?thesis
    using post_authorize_no_partial_grant [of ?env]
          post_authorize_no_partial_grant [of "sample_env ''readwise_A'' 204 200 1700000000000"]
          pre one
    by (meson le_antisym)
qed

section \<open>At most limit documents, in page order\<close>

text \<open>
  Claim C3. Let the limit be a whole number \<open>L\<close> between 1 and 100 and let the upstream
  answer the requests with the pages \<open>pages\<close>, in order. When the listing is finite (its
  last page has a falsy \<^verbatim>\<open>nextPageCursor\<close>) listDocuments returns a result. Whenever
  it returns a result after \<open>n\<close> requests, the result is not an error and its
  documents are the formatted documents of the first \<open>n - 1\<close> pages in full, in page
  order, followed by the documents of page \<open>n\<close> cut to the room left; these are the
  first \<open>L\<close> documents of the first \<open>n\<close> pages, and there are at most \<open>L\<close> of them.
\<close>

theorem listDocuments_at_most_limit_in_order:
  assumes "ld_limit a = real L" "1 \<le> L" "L \<le> 100" "list_all2 serves upstream pages"
  shows "(pages \<noteq> [] \<and> \<not> truthy (nextPageCursor (last pages)) \<longrightarrow>
            fst (listDocuments tok a upstream) \<noteq> None) \<and>
         (\<forall>result reqs. listDocuments tok a upstream = (Some result, reqs) \<longrightarrow>
            (\<exists>docs before.
               1 \<le> length reqs \<and> length reqs \<le> length pages \<and>
               before = concat (map results (take (length reqs - 1) pages)) \<and>
               length before < L \<and>
               docs = before @ take (L - length before) (results (pages ! (length reqs - 1))) \<and>
               docs = take L (concat (map results (take (length reqs) pages))) \<and>
               length docs \<le> L \<and>
               result = documents_result a docs))"
proof (intro conjI allI impI)
  assume fin: "pages \<noteq> [] \<and> \<not> truthy (nextPageCursor (last pages))"
  from listDocuments_loop_stops [OF assms(4), of tok "ld_limit a" "listDocuments_params a" None "[]" 0]
    fin
  obtain docs reqs where
    "listDocuments_loop tok (ld_limit a) (listDocuments_params a) None [] 0 upstream
       = (Some (Inr docs), reqs)"
    by blast
  from listDocuments_done [OF this] show "fst (listDocuments tok a upstream) \<noteq> None" by simp
next
  fix result reqs
  assume run: "listDocuments tok a upstream = (Some result, reqs)"
  obtain res reqs' where loop:
    "listDocuments_loop tok (real L) (listDocuments_params a) None [] 0 upstream = (res, reqs')"
    by (cases "listDocuments_loop tok (real L) (listDocuments_params a) None [] 0 upstream") blast
  from run loop have reqs: "reqs' = reqs"
    using listDocuments_requests [of tok a upstream] by (simp add: assms(1))
  from run loop obtain r where res: "res = Some r"
    by (cases res) (auto simp: listDocuments_def assms(1))
  have len0: "length ([] :: ReaderDocument list) = 0" by simp
  have L0: "0 < L" using assms(2) by simp
  note shape = listDocuments_loop_shape [OF assms(4) len0 L0 loop [unfolded res reqs]]
  define before where "before = concat (map results (take (length reqs - 1) pages))"
  define docs where "docs = before @ take (L - length before) (results (pages ! (length reqs - 1)))"
  from shape have n: "1 \<le> length reqs" "length reqs \<le> length pages"
    and lt: "length before < L" and r: "r = Inr docs"
    by (simp_all add: before_def docs_def)
  have result: "result = documents_result a docs"
    using run listDocuments_done [of tok a upstream docs reqs] loop
    by (simp add: res r reqs assms(1))
  obtain m where m: "length reqs = Suc m" using n(1) by (cases reqs) auto
  have split: "take (Suc m) pages = take m pages @ [pages ! m]"
    using n(2) m by (simp add: take_Suc_conv_app_nth)
  have tk: "docs = take L (concat (map results (take (length reqs) pages)))"
    using lt by (simp add: docs_def before_def m split)
  have "length docs \<le> L" unfolding tk by simp
  with n lt tk result
  show "\<exists>docs before.
               1 \<le> length reqs \<and> length reqs \<le> length pages \<and>
               before = concat (map results (take (length reqs - 1) pages)) \<and>
               length before < L \<and>
               docs = before @ take (L - length before) (results (pages ! (length reqs - 1))) \<and>
               docs = take L (concat (map results (take (length reqs) pages))) \<and>
               length docs \<le> L \<and>
               result = documents_result a docs"
    unfolding docs_def before_def by blast
qed

theorem listDocuments_at_most_limit_in_order_witness:
  "listDocuments ''readwise_A'' (sample_args 3)
          [page_response (sample_page [''a'', ''b''] (Some ''c1'')),
           page_response (sample_page [''c'', ''d''] (Some ''c2'')),
           page_response (sample_page [''e''] None)]
     = (Some (documents_result (sample_args 3) (map sample_document [''a'', ''b'', ''c''])),
        [list_request ''readwise_A'' (listDocuments_params (sample_args 3)),
         list_request ''readwise_A''
           (listDocuments_params (sample_args 3) @ [(''pageCursor'', ''c1'')])])"
proof -
  let ?pages = "[sample_page [''a'', ''b''] (Some ''c1''), sample_page [''c'', ''d''] (Some ''c2''),
                 sample_page [''e''] None]"
  let ?reqs = "[list_request ''readwise_A'' (listDocuments_params (sample_args 3)),
         list_request ''readwise_A''
           (listDocuments_params (sample_args 3) @ [(''pageCursor'', ''c1'')])]"
  have a: "ld_limit (sample_args 3) = real 3" by (simp add: sample_args_def)
  have b: "(1::nat) \<le> 3" "(3::nat) \<le> 100" by simp_all
  have c: "list_all2 serves (map page_response ?pages) ?pages"
    by (simp add: serves_page_response)
  have reqs: "snd (listDocuments ''readwise_A'' (sample_args 3) (map page_response ?pages)) = ?reqs"
    by (simp add: listDocuments_requests sample_args_def listDocuments_params_def
          URLSearchParams_append_def page_response_def sample_page_def ok_def slice0_def
          ToIntegerOrInfinity_def Let_def)
  note T = listDocuments_at_most_limit_in_order [OF a b c, of "''readwise_A''"]
  have some: "fst (listDocuments ''readwise_A'' (sample_args 3) (map page_response ?pages)) \<noteq> None"
    using T by (simp add: sample_page_def)
  define X where "X = listDocuments ''readwise_A'' (sample_args 3) (map page_response ?pages)"
  define R where "R = ?reqs"
  have "fst X \<noteq> None" unfolding X_def by (rule some)
  moreover have "snd X = R" unfolding X_def R_def by (rule reqs)
  ultimately obtain result where run: "X = (Some result, R)" by (cases X) auto
  have len: "length R = 2" by (simp add: R_def)
  from T [THEN conjunct2, rule_format, OF run [unfolded X_def R_def]]
  obtain docs before where
    d: "docs = take 3 (concat (map results (take (length ?reqs) ?pages)))"
    and r: "result = documents_result (sample_args 3) docs"
    by (elim exE conjE) (rule that)
  have "docs = map sample_document [''a'', ''b'', ''c'']"
    unfolding d by (simp add: sample_page_def)
  with r run show ?thesis unfolding X_def R_def by simp
qed

section \<open>The pagination loops terminate\<close>

text \<open>
  Claim C4. When the upstream answers with a finite, non-empty sequence of pages whose
  last page has a falsy \<^verbatim>\<open>nextPageCursor\<close>, the loops of listDocuments and of tagList
  return a result, for every limit. They send \<open>n\<close> requests, where \<open>n\<close> is the first
  page after which the accumulated count has reached the limit or the page's
  \<^verbatim>\<open>nextPageCursor\<close> is falsy: the condition holds after \<open>n\<close> pages and after no
  smaller number of pages.
\<close>

theorem pagination_terminates:
  "(list_all2 serves upstream pages \<and> pages \<noteq> [] \<and> \<not> truthy (nextPageCursor (last pages)) \<longrightarrow>
      (\<exists>result reqs. listDocuments tok a upstream = (Some result, reqs) \<and>
          \<not> isError result \<and>
          1 \<le> length reqs \<and> length reqs \<le> length pages \<and>
          stops (ld_limit a) 0 (take (length reqs) pages) \<and>
          (\<forall>k. 1 \<le> k \<and> k < length reqs \<longrightarrow> \<not> stops (ld_limit a) 0 (take k pages)))) \<and>
   (list_all2 serves tag_upstream tag_pages \<and> tag_pages \<noteq> [] \<and>
    \<not> truthy (nextPageCursor (last tag_pages)) \<longrightarrow>
      (\<exists>result reqs. tagList tok limit tag_upstream = (Some result, reqs) \<and>
          \<not> isError result \<and>
          1 \<le> length reqs \<and> length reqs \<le> length tag_pages \<and>
          stops limit 0 (take (length reqs) tag_pages) \<and>
          (\<forall>k. 1 \<le> k \<and> k < length reqs \<longrightarrow> \<not> stops limit 0 (take k tag_pages))))"
proof (intro conjI impI)
  assume h: "list_all2 serves upstream pages \<and> pages \<noteq> [] \<and>
             \<not> truthy (nextPageCursor (last pages))"
  then have h1: "list_all2 serves upstream pages" and h2: "pages \<noteq> []"
    and h3: "\<not> truthy (nextPageCursor (last pages))" by simp_all
  from listDocuments_loop_stops [OF h1 h2 h3, of tok "ld_limit a" "listDocuments_params a" None "[]" 0]
  obtain docs reqs where
    run: "listDocuments_loop tok (ld_limit a) (listDocuments_params a) None [] 0 upstream
       = (Some (Inr docs), reqs)"
    and rest: "1 \<le> length reqs" "length reqs \<le> length pages"
      "stops (ld_limit a) 0 (take (length reqs) pages)"
      "\<forall>k. 1 \<le> k \<and> k < length reqs \<longrightarrow> \<not> stops (ld_limit a) 0 (take k pages)"
    by blast
  have "\<not> isError (documents_result a docs)" by (simp add: documents_result_def)
  with listDocuments_done [OF run] rest
  show "\<exists>result reqs. listDocuments tok a upstream = (Some result, reqs) \<and>
          \<not> isError result \<and>
          1 \<le> length reqs \<and> length reqs \<le> length pages \<and>
          stops (ld_limit a) 0 (take (length reqs) pages) \<and>
          (\<forall>k. 1 \<le> k \<and> k < length reqs \<longrightarrow> \<not> stops (ld_limit a) 0 (take k pages))"
    by blast
next
  assume h: "list_all2 serves tag_upstream tag_pages \<and> tag_pages \<noteq> [] \<and>
             \<not> truthy (nextPageCursor (last tag_pages))"
  then have h1: "list_all2 serves tag_upstream tag_pages" and h2: "tag_pages \<noteq> []"
    and h3: "\<not> truthy (nextPageCursor (last tag_pages))" by simp_all
  from tagList_loop_stops [OF h1 h2 h3, of tok limit None "[]" 0]
  obtain found reqs where
    run: "tagList_loop tok limit None [] 0 tag_upstream = (Some (Inr found), reqs)"
    and rest: "1 \<le> length reqs" "length reqs \<le> length tag_pages"
      "stops limit 0 (take (length reqs) tag_pages)"
      "\<forall>k. 1 \<le> k \<and> k < length reqs \<longrightarrow> \<not> stops limit 0 (take k tag_pages)"
    by blast
  from tagList_done [OF run] rest
  show "\<exists>result reqs. tagList tok limit tag_upstream = (Some result, reqs) \<and>
          \<not> isError result \<and>
          1 \<le> length reqs \<and> length reqs \<le> length tag_pages \<and>
          stops limit 0 (take (length reqs) tag_pages) \<and>
          (\<forall>k. 1 \<le> k \<and> k < length reqs \<longrightarrow> \<not> stops limit 0 (take k tag_pages))"
    by fastforce
qed

theorem pagination_terminates_witness:
  "fst (listDocuments ''readwise_A'' (sample_args 3)
          [page_response (sample_page [''a'', ''b''] (Some ''c1'')),
           page_response (sample_page [''c'', ''d''] (Some ''c2'')),
           page_response (sample_page [''e''] None)]) \<noteq> None \<and>
   fst (tagList ''readwise_A'' 50
          [page_response (sample_tag_page [''x'', ''y''] (Some ''c1'')),
           page_response (sample_tag_page [''z''] None)]) \<noteq> None"
proof -
  let ?pages = "[sample_page [''a'', ''b''] (Some ''c1''), sample_page [''c'', ''d''] (Some ''c2''),
                 sample_page [''e''] None]"
  let ?tags = "[sample_tag_page [''x'', ''y''] (Some ''c1''), sample_tag_page [''z''] None]"
  have a: "list_all2 serves (map page_response ?pages) ?pages \<and> ?pages \<noteq> [] \<and>
           \<not> truthy (nextPageCursor (last ?pages))"
    by (simp add: serves_page_response sample_page_def)
  have b: "list_all2 serves (map page_response ?tags) ?tags \<and> ?tags \<noteq> [] \<and>
           \<not> truthy (nextPageCursor (last ?tags))"
    by (simp add: serves_page_response sample_tag_page_def)
  show ?thesis
    using pagination_terminates [of "map page_response ?pages" ?pages "''readwise_A''"
        "sample_args 3" "map page_response ?tags" ?tags 50] a b
    by auto
qed

section \<open>User ids\<close>

text \<open>
  Claim C5. Two successful verifications get grants with different user ids. The handler
  builds the user id from \<^verbatim>\<open>Date.now()\<close> alone, under the comment
  \<^verbatim>\<open>Generate a unique user ID\<close>: two submissions of different tokens that read the
  same millisecond are both granted, under the same user id.
\<close>

theorem same_millisecond_same_userId:
  "map userId (grants (snd (post_authorize (sample_env ''readwise_A'' 204 200 1700000000000))))
     = [''reader_user_1700000000000''] \<and>
   map userId (grants (snd (post_authorize (sample_env ''readwise_B'' 204 200 1700000000000))))
     = [''reader_user_1700000000000''] \<and>
   map props (grants (snd (post_authorize (sample_env ''readwise_A'' 204 200 1700000000000))))
     = [\<lparr>apiToken = ''readwise_A''\<rparr>] \<and>
   map props (grants (snd (post_authorize (sample_env ''readwise_B'' 204 200 1700000000000))))
     = [\<lparr>apiToken = ''readwise_B''\<rparr>]"
  by (simp add: post_authorize_def sample_env_def FormData_get_def verify_request_def
        user_request_def ok_def Let_def grant_options_def show_nat.simps digit_def)

section \<open>The summary of a listed document\<close>

text \<open>
  Claim C6 says that a summary of at most 100 characters is rendered unchanged. The
  formatter appends \<^verbatim>\<open>...\<close> to every non-empty summary: the summary
  \<^verbatim>\<open>Short\<close> is rendered as \<^verbatim>\<open>Short...\<close>.
\<close>

theorem short_summary_counterexample:
  "length ''Short'' \<le> 100 \<and>
   summary (sample_document ''d1'') = Some ''Short'' \<and>
   field (formatDocument (sample_document ''d1'')) ''summary'' \<noteq> Some (JString ''Short'')"
  by (simp add: sample_document_def formatDocument_def format_summary_def substring0_def)

text \<open>
  Claim C6, amended. A missing or empty summary is rendered as \<^verbatim>\<open>No summary\<close>; a
  summary longer than 100 characters as its first 100 characters followed by
  \<^verbatim>\<open>...\<close>; a non-empty summary of at most 100 characters as the whole summary
  followed by \<^verbatim>\<open>...\<close>.
\<close>

theorem summary_rendering:
  "(summary doc = None \<longrightarrow>
      field (formatDocument doc) ''summary'' = Some (JString ''No summary'')) \<and>
   (summary doc = Some [] \<longrightarrow>
      field (formatDocument doc) ''summary'' = Some (JString ''No summary'')) \<and>
   (\<forall>s. summary doc = Some s \<and> length s > 100 \<longrightarrow>
      field (formatDocument doc) ''summary'' = Some (JString (take 100 s @ ''...''))) \<and>
   (\<forall>s. summary doc = Some s \<and> s \<noteq> [] \<and> length s \<le> 100 \<longrightarrow>
      field (formatDocument doc) ''summary'' = Some (JString (s @ ''...'')))"
  by (auto simp: formatDocument_def format_summary_def substring0_def)

theorem summary_rendering_witness:
  "field (formatDocument (sample_document ''d1'')) ''summary'' = Some (JString ''Short...'') \<and>
   field (formatDocument ((sample_document ''d1'')\<lparr>summary := None\<rparr>)) ''summary''
     = Some (JString ''No summary'') \<and>
   field (formatDocument ((sample_document ''d1'')\<lparr>summary := Some []\<rparr>)) ''summary''
     = Some (JString ''No summary'') \<and>
   field (formatDocument ((sample_document ''d1'')\<lparr>summary := Some (replicate 101 CHR ''a'')\<rparr>))
      ''summary'' = Some (JString (replicate 100 CHR ''a'' @ ''...''))"
proof -
  have a: "summary (sample_document ''d1'') = Some ''Short'' \<and> ''Short'' \<noteq> [] \<and> length ''Short'' \<le> 100"
    by (simp add: sample_document_def)
  have b: "summary ((sample_document ''d1'')\<lparr>summary := Some (replicate 101 CHR ''a'')\<rparr>)
             = Some (replicate 101 CHR ''a'') \<and> length (replicate 101 CHR ''a'') > 100"
    by simp
  have c: "take 100 (replicate 101 CHR ''a'') = replicate 100 CHR ''a''" by simp
  show ?thesis
    using summary_rendering [of "sample_document ''d1''"]
      summary_rendering [of "(sample_document ''d1'')\<lparr>summary := None\<rparr>"]
      summary_rendering [of "(sample_document ''d1'')\<lparr>summary := Some []\<rparr>"]
      summary_rendering [of "(sample_document ''d1'')\<lparr>summary := Some (replicate 101 CHR ''a'')\<rparr>"]
      a b c
    by simp
qed

section \<open>The payload of createDocument omits what was not supplied\<close>

text \<open>
  Claim C7. The request of createDocument is a POST to \<^verbatim>\<open>/api/v3/save/\<close> whose
  body is a JSON object. The key \<^verbatim>\<open>url\<close> is always present, with the caller's URL,
  and for each of the twelve optional parameters, when the caller did not supply it, the
  object has no key of that name.
\<close>

theorem createDocument_omits_unsupplied:
  "req_method (snd (createDocument tok a upstream)) = ''POST'' \<and>
   req_url (snd (createDocument tok a upstream)) = ''https://readwise.io/api/v3/save/'' \<and>
   (\<exists>payload. req_body (snd (createDocument tok a upstream)) = Some (JObject payload) \<and>
      map_of payload ''url'' = Some (JString (cd_url a))) \<and>
   ''url'' \<in> set (body_keys (snd (createDocument tok a upstream))) \<and>
   (cd_html a = None \<longrightarrow> ''html'' \<notin> set (body_keys (snd (createDocument tok a upstream)))) \<and>
   (cd_should_clean_html a = None \<longrightarrow>
      ''should_clean_html'' \<notin> set (body_keys (snd (createDocument tok a upstream)))) \<and>
   (cd_title a = None \<longrightarrow> ''title'' \<notin> set (body_keys (snd (createDocument tok a upstream)))) \<and>
   (cd_author a = None \<longrightarrow> ''author'' \<notin> set (body_keys (snd (createDocument tok a upstream)))) \<and>
   (cd_summary a = None \<longrightarrow>
      ''summary'' \<notin> set (body_keys (snd (createDocument tok a upstream)))) \<and>
   (cd_published_date a = None \<longrightarrow>
      ''published_date'' \<notin> set (body_keys (snd (createDocument tok a upstream)))) \<and>
   (cd_image_url a = None \<longrightarrow>
      ''image_url'' \<notin> set (body_keys (snd (createDocument tok a upstream)))) \<and>
   (cd_location a = None \<longrightarrow>
      ''location'' \<notin> set (body_keys (snd (createDocument tok a upstream)))) \<and>
   (cd_category a = None \<longrightarrow>
      ''category'' \<notin> set (body_keys (snd (createDocument tok a upstream)))) \<and>
   (cd_saved_using a = None \<longrightarrow>
      ''saved_using'' \<notin> set (body_keys (snd (createDocument tok a upstream)))) \<and>
   (cd_tags a = None \<longrightarrow> ''tags'' \<notin> set (body_keys (snd (createDocument tok a upstream)))) \<and>
   (cd_notes a = None \<longrightarrow> ''notes'' \<notin> set (body_keys (snd (createDocument tok a upstream))))"
proof -
  have keys: "set (body_keys (snd (createDocument tok a upstream)))
                = fst ` set (createDocument_payload a)"
    by (simp add: createDocument_request save_request_def body_keys_def)
  have body: "req_body (snd (createDocument tok a upstream))
                = Some (JObject (createDocument_payload a))"
    by (simp add: createDocument_request save_request_def)
  have 1: "req_method (snd (createDocument tok a upstream)) = ''POST''"
    by (simp add: createDocument_request save_request_def)
  have 2: "req_url (snd (createDocument tok a upstream)) = ''https://readwise.io/api/v3/save/''"
    by (simp add: createDocument_request save_request_def)
  have 3: "\<exists>payload. req_body (snd (createDocument tok a upstream)) = Some (JObject payload) \<and>
      map_of payload ''url'' = Some (JString (cd_url a))"
    using body createDocument_payload_url by blast
  have 4: "''url'' \<in> set (body_keys (snd (createDocument tok a upstream)))"
    unfolding keys createDocument_payload_keys by simp
  have 5: "cd_html a = None \<longrightarrow> ''html'' \<notin> set (body_keys (snd (createDocument tok a upstream)))"
    unfolding keys createDocument_payload_keys by simp
  have 6: "cd_should_clean_html a = None \<longrightarrow>
      ''should_clean_html'' \<notin> set (body_keys (snd (createDocument tok a upstream)))"
    unfolding keys createDocument_payload_keys by simp
  have 7: "cd_title a = None \<longrightarrow> ''title'' \<notin> set (body_keys (snd (createDocument tok a upstream)))"
    unfolding keys createDocument_payload_keys by simp
  have 8: "cd_author a = None \<longrightarrow> ''author'' \<notin> set (body_keys (snd (createDocument tok a upstream)))"
    unfolding keys createDocument_payload_keys by simp
  have 9: "cd_summary a = None \<longrightarrow>
      ''summary'' \<notin> set (body_keys (snd (createDocument tok a upstream)))"
    unfolding keys createDocument_payload_keys by simp
  have 10: "cd_published_date a = None \<longrightarrow>
      ''published_date'' \<notin> set (body_keys (snd (createDocument tok a upstream)))"
    unfolding keys createDocument_payload_keys by simp
  have 11: "cd_image_url a = None \<longrightarrow>
      ''image_url'' \<notin> set (body_keys (snd (createDocument tok a upstream)))"
    unfolding keys createDocument_payload_keys by simp
  have 12: "cd_location a = None \<longrightarrow>
      ''location'' \<notin> set (body_keys (snd (createDocument tok a upstream)))"
    unfolding keys createDocument_payload_keys by simp
  have 13: "cd_category a = None \<longrightarrow>
      ''category'' \<notin> set (body_keys (snd (createDocument tok a upstream)))"
    unfolding keys createDocument_payload_keys by simp
  have 14: "cd_saved_using a = None \<longrightarrow>
      ''saved_using'' \<notin> set (body_keys (snd (createDocument tok a upstream)))"
    unfolding keys createDocument_payload_keys by simp
  have 15: "cd_tags a = None \<longrightarrow> ''tags'' \<notin> set (body_keys (snd (createDocument tok a upstream)))"
    unfolding keys createDocument_payload_keys by simp
  have 16: "cd_notes a = None \<longrightarrow> ''notes'' \<notin> set (body_keys (snd (createDocument tok a upstream)))"
    unfolding keys createDocument_payload_keys by simp
  from 1 2 3 4 5 6 7 8 9 10 11 12 13 14 15 16 show ?thesis by (intro conjI)
qed

theorem createDocument_omits_unsupplied_witness:
  "cd_html sample_create_args = None \<and> cd_tags sample_create_args = None \<and>
   cd_notes sample_create_args = None \<and>
   ''url'' \<in> set (body_keys (snd (createDocument ''readwise_A'' sample_create_args
                                    (\<lambda>q. Rejected ''offline'')))) \<and>
   ''html'' \<notin> set (body_keys (snd (createDocument ''readwise_A'' sample_create_args
                                    (\<lambda>q. Rejected ''offline'')))) \<and>
   ''tags'' \<notin> set (body_keys (snd (createDocument ''readwise_A'' sample_create_args
                                    (\<lambda>q. Rejected ''offline'')))) \<and>
   ''notes'' \<notin> set (body_keys (snd (createDocument ''readwise_A'' sample_create_args
                                    (\<lambda>q. Rejected ''offline''))))"
  using createDocument_omits_unsupplied [of "''readwise_A''" sample_create_args
        "\<lambda>q. Rejected ''offline''"]
  by (simp add: sample_create_args_def)

section \<open>The results of deleteDocument\<close>

text \<open>
  Claim C8. When the upstream answers the DELETE request with a 2xx status,
  deleteDocument returns a result that is not an error, whose JSON has
  \<^verbatim>\<open>success: true\<close> and the caller's \<^verbatim>\<open>documentId\<close>. When the upstream answers
  with another status, it returns a tool result flagged as an error whose message holds
  the digits of the status; for status 404 the message reads
  \<^verbatim>\<open>Error deleting document: API request failed: 404\<close> and the reason phrase.
\<close>

theorem deleteDocument_results:
  assumes "upstream (delete_request tok documentId) = Resolved response"
  shows "(ok response \<longrightarrow>
            fst (deleteDocument tok documentId upstream) =
              \<lparr>content_text = JSON_stringify (JObject
                  [(''success'', JBool True),
                   (''message'', JString ''Document deleted successfully''),
                   (''documentId'', JString documentId)]),
               isError = False\<rparr>) \<and>
         (\<not> ok response \<longrightarrow>
            fst (deleteDocument tok documentId upstream) =
              \<lparr>content_text = Plain (''Error deleting document: API request failed: ''
                                      @ show_nat (status response) @ '' '' @ statusText response),
               isError = True\<rparr>) \<and>
         (status response = 404 \<longrightarrow>
            fst (deleteDocument tok documentId upstream) =
              \<lparr>content_text = Plain (''Error deleting document: API request failed: 404 ''
                                      @ statusText response),
               isError = True\<rparr>)"
proof -
  have s404: "show_nat 404 = ''404''" by (simp add: show_nat.simps digit_def)
  show ?thesis
    using assms by (auto simp: deleteDocument_def Let_def api_request_failed_def ok_def s404)
qed

theorem deleteDocument_results_witness:
  "fst (deleteDocument ''readwise_A'' ''doc1''
         (\<lambda>q. Resolved \<lparr>status = 404, statusText = ''Not Found'', body_json = Inr ()\<rparr>))
     = \<lparr>content_text = Plain ''Error deleting document: API request failed: 404 Not Found'',
        isError = True\<rparr> \<and>
   fst (deleteDocument ''readwise_A'' ''doc1''
         (\<lambda>q. Resolved \<lparr>status = 204, statusText = ''No Content'', body_json = Inr ()\<rparr>))
     = \<lparr>content_text = JSON_stringify (JObject
                  [(''success'', JBool True),
                   (''message'', JString ''Document deleted successfully''),
                   (''documentId'', JString ''doc1'')]),
        isError = False\<rparr>"
  using deleteDocument_results [of "\<lambda>q. Resolved \<lparr>status = 404, statusText = ''Not Found'', body_json = Inr ()\<rparr>"
          "''readwise_A''" "''doc1''" "\<lparr>status = 404, statusText = ''Not Found'', body_json = Inr ()\<rparr>"]
        deleteDocument_results [of "\<lambda>q. Resolved \<lparr>status = 204, statusText = ''No Content'', body_json = Inr ()\<rparr>"
          "''readwise_A''" "''doc1''" "\<lparr>status = 204, statusText = ''No Content'', body_json = Inr ()\<rparr>"]
  by (simp add: ok_def show_nat.simps digit_def)

section \<open>Reading progress\<close>

lemma round_double_eval:
  assumes "x \<noteq> 0" "max (- 1022) (binade 1100 \<bar>x\<bar> 0) = e"
    and "round_half_even (\<bar>x\<bar> / pow2 (e - 52)) = m"
    and "of_int m * pow2 (e - 52) < (2 ^ 1024 :: real)"
  shows "round_double x = Some (sgn x * (of_int m * pow2 (e - 52)))"
  using assms by (simp add: round_double_def Let_def)

text \<open>
  Powers of two, and what \<open>binade\<close> computes: the exponent of the binade of \<open>a\<close>,
  as far as the fuel reaches.
\<close>

lemma pow2_powi: "pow2 e = 2 powi e"
  by (simp add: pow2_def power_int_def inverse_eq_divide power_one_over)

lemma pow2_pos: "0 < pow2 e"
  by (simp add: pow2_powi)

lemma pow2_0: "pow2 0 = 1"
  by (simp add: pow2_def)

lemma pow2_Suc: "pow2 (e + 1) = 2 * pow2 e"
  by (simp add: pow2_powi power_int_add_1)

lemma pow2_mono: "e \<le> e' \<Longrightarrow> pow2 e \<le> pow2 e'"
  by (simp add: pow2_powi power_int_increasing)

lemma pow2_less_imp: "pow2 e < pow2 e' \<Longrightarrow> e < e'"
  using pow2_mono [of e' e] by (cases "e < e'") auto

lemma binade_low:
  assumes "pow2 k \<le> a" "a < pow2 (k + 1)" "k \<le> 0"
  shows "binade n a e = e + max k (- int n)"
  using assms
proof (induction n arbitrary: a e k)
  case 0
  then show ?case by (simp add: binade.simps)
next
  case (Suc n)
  show ?case
  proof (cases "k = 0")
    case True
    with Suc.prems have "1 \<le> a" "a < 2" by (simp_all add: pow2_0 pow2_Suc [of 0, simplified])
    then show ?thesis using True by (subst binade.simps) simp
  next
    case False
    with Suc.prems have k: "k + 1 \<le> 0" by simp
    have "a < pow2 0" using Suc.prems(2) pow2_mono [OF k] by simp
    then have a1: "a < 1" by (simp add: pow2_0)
    have lo: "pow2 (k + 1) \<le> a * 2" using Suc.prems(1) by (simp add: pow2_Suc)
    have hi: "a * 2 < pow2 (k + 1 + 1)"
      using Suc.prems(2) unfolding pow2_Suc [of "k + 1"] by simp
    have "binade (Suc n) a e = binade n (a * 2) (e - 1)"
      using a1 by (subst binade.simps) simp
    also have "\<dots> = e - 1 + max (k + 1) (- int n)" by (rule Suc.IH [OF lo hi k])
    finally show ?thesis by simp
  qed
qed

lemma binade_high:
  assumes "pow2 k \<le> a" "a < pow2 (k + 1)" "0 \<le> k"
  shows "binade n a e = e + min k (int n)"
  using assms
proof (induction n arbitrary: a e k)
  case 0
  then show ?case by (simp add: binade.simps)
next
  case (Suc n)
  show ?case
  proof (cases "k = 0")
    case True
    with Suc.prems have "1 \<le> a" "a < 2" by (simp_all add: pow2_0 pow2_Suc [of 0, simplified])
    then show ?thesis using True by (subst binade.simps) simp
  next
    case False
    with Suc.prems have k: "0 \<le> k - 1" by simp
    have "pow2 1 \<le> pow2 k" using False Suc.prems(3) by (intro pow2_mono) simp
    then have a2: "2 \<le> a" using Suc.prems(1) by (simp add: pow2_Suc [of 0, simplified] pow2_0)
    have lo: "pow2 (k - 1) \<le> a / 2" using Suc.prems(1) pow2_Suc [of "k - 1"] by simp
    have hi: "a / 2 < pow2 (k - 1 + 1)" using Suc.prems(2) pow2_Suc [of k] by simp
    have "binade (Suc n) a e = binade n (a / 2) (e + 1)"
      using a2 by (subst binade.simps) simp
    also have "\<dots> = e + 1 + min (k - 1) (int n)" by (rule Suc.IH [OF lo hi k])
    finally show ?thesis by simp
  qed
qed

lemma binade_exists:
  assumes "0 < a"
  shows "\<exists>k. pow2 k \<le> a \<and> a < pow2 (k + 1)"
proof -
  define k where "k = \<lfloor>log 2 a\<rfloor>"
  have p: "pow2 j = 2 powr (of_int j)" for j
    by (simp add: pow2_powi powr_real_of_int' )
  have "of_int k \<le> log 2 a" by (simp add: k_def)
  then have "2 powr (of_int k) \<le> a" using assms by (simp add: le_log_iff)
  moreover have "log 2 a < of_int (k + 1)" unfolding k_def by linarith
  then have "a < 2 powr (of_int (k + 1))" using assms by (simp add: log_less_iff)
  ultimately show ?thesis unfolding p by blast
qed

lemma round_half_even_near: "\<bar>of_int (round_half_even y) - y\<bar> \<le> 1 / 2"
  unfolding round_half_even_def Let_def by (auto simp: abs_le_iff)

text \<open>
  A product of at most 100 is finite and differs from the real product by at most half a
  unit in the last place of a number below 128, that is by at most \<open>1 / 2 ^ 47\<close>.
\<close>

lemma round_double_upto_100:
  assumes "0 < a" "a \<le> 100"
  shows "\<exists>d. round_double a = Some d \<and> \<bar>d - a\<bar> \<le> 1 / 2 ^ 47"
proof -
  from binade_exists [OF assms(1)] obtain k where k: "pow2 k \<le> a" "a < pow2 (k + 1)" by blast
  have "pow2 7 = 128" by (simp add: pow2_def)
  then have "pow2 k < pow2 7" using k(1) assms(2) by simp
  then have k7: "k < 7" by (rule pow2_less_imp)
  define E where "E = max (- 1022) (binade 1100 \<bar>a\<bar> 0)"
  have absa: "\<bar>a\<bar> = a" using assms(1) by simp
  have E6: "E \<le> 6"
  proof (cases "k \<le> 0")
    case True
    from binade_low [OF k True, of 1100 0] True show ?thesis unfolding E_def absa by simp
  next
    case False
    then have "0 \<le> k" by simp
    from binade_high [OF k this, of 1100 0] k7 show ?thesis unfolding E_def absa by simp
  qed
  define ulp where "ulp = pow2 (E - 52)"
  define m where "m = round_half_even (\<bar>a\<bar> / ulp)"
  define r where "r = real_of_int m * ulp"
  have ulp_pos: "0 < ulp" by (simp add: ulp_def pow2_pos)
  have "pow2 (- 46) = 2 * pow2 (- 47)" using pow2_Suc [of "- 47"] by simp
  moreover have "pow2 (- 47) = 1 / 2 ^ 47" by (simp add: pow2_def)
  ultimately have p46: "pow2 (- 46) / 2 = 1 / 2 ^ 47" by simp
  have "ulp \<le> pow2 (- 46)" unfolding ulp_def using E6 by (intro pow2_mono) simp
  then have half: "ulp * (1 / 2) \<le> 1 / 2 ^ 47" using p46 by simp
  have "r - a = ulp * (of_int m - a / ulp)" using ulp_pos by (simp add: r_def field_simps)
  then have "\<bar>r - a\<bar> = ulp * \<bar>of_int m - a / ulp\<bar>" using ulp_pos by (simp add: abs_mult)
  also have "\<dots> \<le> ulp * (1 / 2)"
    using round_half_even_near [of "a / ulp"] ulp_pos unfolding m_def absa
    by (intro mult_left_mono) simp_all
  finally have near: "\<bar>r - a\<bar> \<le> 1 / 2 ^ 47" using half by simp
  have "(1 / 2 ^ 47 :: real) \<le> 1" by simp
  with near assms(2) have "r \<le> 101" by linarith
  moreover have "(101 :: real) < 2 ^ 1024" by simp
  ultimately have lt: "of_int m * pow2 (E - 52) < (2 ^ 1024 :: real)"
    unfolding r_def ulp_def by linarith
  have "round_double a = Some (sgn a * (of_int m * pow2 (E - 52)))"
    by (rule round_double_eval [OF _ E_def [symmetric] m_def [unfolded ulp_def, symmetric] lt])
       (use assms(1) in simp)
  then have "round_double a = Some r" using assms(1) by (simp add: r_def ulp_def)
  with near show ?thesis by blast
qed

lemma double_mul_fraction:
  assumes "0 \<le> p" "p \<le> 1"
  shows "\<exists>x. double_mul p 100 = Some x \<and> \<bar>x - p * 100\<bar> \<le> 1 / 2 ^ 47"
proof (cases "p = 0")
  case True
  then show ?thesis by (simp add: double_mul_def round_double_def)
next
  case False
  with assms have "0 < p * 100" "p * 100 \<le> 100" by simp_all
  from round_double_upto_100 [OF this] show ?thesis by (simp add: double_mul_def)
qed

text \<open>The decimal \<^verbatim>\<open>0.734\<close> is read as the double \<open>413205265811243 / 2 ^ 49\<close>.\<close>

lemma round_double_0734:
  "round_double (367 / 500) = Some (413205265811243 / 562949953421312)"
proof -
  have e: "max (- 1022) (binade 1100 \<bar>367 / 500 :: real\<bar> 0) = - 1"
    by (simp add: binade.simps)
  have m: "round_half_even (\<bar>367 / 500 :: real\<bar> / pow2 (- 1 - 52)) = 6611284252979888"
    by (simp add: pow2_def round_half_even_def Let_def)
  have lt: "of_int 6611284252979888 * pow2 (- 1 - 52) < (2 ^ 1024 :: real)"
    by (simp add: pow2_def)
  have "round_double (367 / 500)
          = Some (sgn (367 / 500) * (of_int 6611284252979888 * pow2 (- 1 - 52)))"
    by (rule round_double_eval [OF _ e m lt]) simp
  then show ?thesis by (simp add: pow2_def)
qed

text \<open>Its double product with 100 is \<open>2582532911320269 / 2 ^ 45\<close>, a little below 73.4.\<close>

lemma double_mul_0734:
  "double_mul (413205265811243 / 562949953421312) 100
     = Some (2582532911320269 / 35184372088832)"
proof -
  let ?x = "413205265811243 / 562949953421312 * 100 :: real"
  have e: "max (- 1022) (binade 1100 \<bar>?x\<bar> 0) = 6"
    by (simp add: binade.simps)
  have m: "round_half_even (\<bar>?x\<bar> / pow2 (6 - 52)) = 5165065822640538"
    by (simp add: pow2_def round_half_even_def Let_def)
  have lt: "of_int 5165065822640538 * pow2 (6 - 52) < (2 ^ 1024 :: real)"
    by (simp add: pow2_def)
  have "round_double ?x = Some (sgn ?x * (of_int 5165065822640538 * pow2 (6 - 52)))"
    by (rule round_double_eval [OF _ e m lt]) simp
  then show ?thesis by (simp add: pow2_def double_mul_def)
qed

text \<open>
  The decimal \<^verbatim>\<open>0.735\<close> is read as a double below it, \<open>6620291452234629 / 2 ^ 53\<close>,
  whose double product with 100 is 73.5 exactly, though the real product is below 73.5.
\<close>

lemma round_double_0735:
  "round_double (147 / 200) = Some (6620291452234629 / 9007199254740992)"
proof -
  have e: "max (- 1022) (binade 1100 \<bar>147 / 200 :: real\<bar> 0) = - 1"
    by (simp add: binade.simps)
  have m: "round_half_even (\<bar>147 / 200 :: real\<bar> / pow2 (- 1 - 52)) = 6620291452234629"
    by (simp add: pow2_def round_half_even_def Let_def)
  have lt: "of_int 6620291452234629 * pow2 (- 1 - 52) < (2 ^ 1024 :: real)"
    by (simp add: pow2_def)
  have "round_double (147 / 200)
          = Some (sgn (147 / 200) * (of_int 6620291452234629 * pow2 (- 1 - 52)))"
    by (rule round_double_eval [OF _ e m lt]) simp
  then show ?thesis by (simp add: pow2_def)
qed

lemma double_mul_0735:
  "double_mul (6620291452234629 / 9007199254740992) 100 = Some (147 / 2)"
proof -
  let ?x = "6620291452234629 / 9007199254740992 * 100 :: real"
  have e: "max (- 1022) (binade 1100 \<bar>?x\<bar> 0) = 6"
    by (simp add: binade.simps)
  have m: "round_half_even (\<bar>?x\<bar> / pow2 (6 - 52)) = 5172102697058304"
    by (simp add: pow2_def round_half_even_def Let_def)
  have lt: "of_int 5172102697058304 * pow2 (6 - 52) < (2 ^ 1024 :: real)"
    by (simp add: pow2_def)
  have "round_double ?x = Some (sgn ?x * (of_int 5172102697058304 * pow2 (6 - 52)))"
    by (rule round_double_eval [OF _ e m lt]) simp
  then show ?thesis by (simp add: pow2_def double_mul_def)
qed

lemma Math_round_nearest: "of_int (Math_round x) - 1 / 2 \<le> x \<and> x < of_int (Math_round x) + 1 / 2"
  unfolding Math_round_def by linarith

lemma field_reading_progress:
  "field (formatDocument doc) ''reading_progress''
     = Some (format_reading_progress (reading_progress doc))"
  by (simp add: formatDocument_def)

text \<open>
  Claim C9. The field \<^verbatim>\<open>reading_progress\<close> of a formatted document is the double
  product of the document's fraction with 100, rounded to the nearest whole number, a tie
  going up. For every fraction \<open>p\<close> between 0 and 1 the product is a finite double \<open>x\<close>
  within \<open>1 / 2 ^ 47\<close> of \<open>100 p\<close>, and the field is the whole number \<open>r\<close> with
  \<open>r - 1/2 \<le> x < r + 1/2\<close>. The same holds of every number whose product with 100 is
  finite; when the product is infinite the field is \<^verbatim>\<open>null\<close>. For a document whose
  fraction is the double that the decimal \<^verbatim>\<open>0.734\<close> denotes, the product is the
  double next to 73.4 and the field is 73. For the double that \<^verbatim>\<open>0.735\<close> denotes,
  the product is the double 73.5 and the field is 74.
\<close>

theorem reading_progress_rounded:
  "(0 \<le> reading_progress doc \<and> reading_progress doc \<le> 1 \<longrightarrow>
      (\<exists>x. \<exists>r::int. double_mul (reading_progress doc) 100 = Some x \<and>
             \<bar>x - reading_progress doc * 100\<bar> \<le> 1 / 2 ^ 47 \<and>
             field (formatDocument doc) ''reading_progress'' = Some (JNumber (of_int r)) \<and>
             of_int r - 1 / 2 \<le> x \<and> x < of_int r + 1 / 2)) \<and>
   (\<forall>x. double_mul (reading_progress doc) 100 = Some x \<longrightarrow>
      (\<exists>r::int. field (formatDocument doc) ''reading_progress'' = Some (JNumber (of_int r)) \<and>
                 of_int r - 1 / 2 \<le> x \<and> x < of_int r + 1 / 2)) \<and>
   (double_mul (reading_progress doc) 100 = None \<longrightarrow>
      field (formatDocument doc) ''reading_progress'' = Some JNull) \<and>
   (round_double (734 / 1000) = Some (reading_progress doc) \<longrightarrow>
      double_mul (reading_progress doc) 100 = Some (2582532911320269 / 35184372088832) \<and>
      field (formatDocument doc) ''reading_progress'' = Some (JNumber 73)) \<and>
   (round_double (735 / 1000) = Some (reading_progress doc) \<longrightarrow>
      double_mul (reading_progress doc) 100 = Some (147 / 2) \<and>
      field (formatDocument doc) ''reading_progress'' = Some (JNumber 74))"
proof (intro conjI allI impI)
  assume "0 \<le> reading_progress doc \<and> reading_progress doc \<le> 1"
  then have "0 \<le> reading_progress doc" "reading_progress doc \<le> 1" by simp_all
  from double_mul_fraction [OF this] obtain x where
    x: "double_mul (reading_progress doc) 100 = Some x"
    and near: "\<bar>x - reading_progress doc * 100\<bar> \<le> 1 / 2 ^ 47"
    by blast
  from x have "field (formatDocument doc) ''reading_progress''
               = Some (JNumber (of_int (Math_round x)))"
    by (simp add: field_reading_progress format_reading_progress_def)
  with Math_round_nearest [of x] x near
  show "\<exists>x. \<exists>r::int. double_mul (reading_progress doc) 100 = Some x \<and>
             \<bar>x - reading_progress doc * 100\<bar> \<le> 1 / 2 ^ 47 \<and>
             field (formatDocument doc) ''reading_progress'' = Some (JNumber (of_int r)) \<and>
             of_int r - 1 / 2 \<le> x \<and> x < of_int r + 1 / 2"
    by blast
next
  fix x
  assume "double_mul (reading_progress doc) 100 = Some x"
  then have "field (formatDocument doc) ''reading_progress''
               = Some (JNumber (of_int (Math_round x)))"
    by (simp add: field_reading_progress format_reading_progress_def)
  with Math_round_nearest [of x]
  show "\<exists>r::int. field (formatDocument doc) ''reading_progress'' = Some (JNumber (of_int r)) \<and>
                 of_int r - 1 / 2 \<le> x \<and> x < of_int r + 1 / 2"
    by blast
next
  assume "double_mul (reading_progress doc) 100 = None"
  then show "field (formatDocument doc) ''reading_progress'' = Some JNull"
    by (simp add: field_reading_progress format_reading_progress_def)
next
  assume "round_double (734 / 1000) = Some (reading_progress doc)"
  then have p: "reading_progress doc = 413205265811243 / 562949953421312"
    by (simp add: round_double_0734)
  show "double_mul (reading_progress doc) 100 = Some (2582532911320269 / 35184372088832)"
    unfolding p by (rule double_mul_0734)
  have "Math_round (2582532911320269 / 35184372088832) = 73"
    by (simp add: Math_round_def)
  then show "field (formatDocument doc) ''reading_progress'' = Some (JNumber 73)"
    unfolding field_reading_progress format_reading_progress_def p double_mul_0734 by simp
next
  assume "round_double (735 / 1000) = Some (reading_progress doc)"
  then have p: "reading_progress doc = 6620291452234629 / 9007199254740992"
    by (simp add: round_double_0735)
  show "double_mul (reading_progress doc) 100 = Some (147 / 2)"
    unfolding p by (rule double_mul_0735)
  have "Math_round (147 / 2) = 74"
    by (simp add: Math_round_def)
  then show "field (formatDocument doc) ''reading_progress'' = Some (JNumber 74)"
    unfolding field_reading_progress format_reading_progress_def p double_mul_0735 by simp
qed

theorem reading_progress_rounded_witness:
  "round_double (734 / 1000) = Some (reading_progress (sample_document ''d1'')) \<and>
   field (formatDocument (sample_document ''d1'')) ''reading_progress'' = Some (JNumber 73) \<and>
   round_double (735 / 1000)
     = Some (reading_progress ((sample_document ''d1'')
               \<lparr>reading_progress := 6620291452234629 / 9007199254740992\<rparr>)) \<and>
   field (formatDocument ((sample_document ''d1'')
            \<lparr>reading_progress := 6620291452234629 / 9007199254740992\<rparr>)) ''reading_progress''
     = Some (JNumber 74)"
proof -
  have a: "round_double (734 / 1000) = Some (reading_progress (sample_document ''d1''))"
    by (simp add: round_double_0734 sample_document_def)
  have b: "round_double (735 / 1000)
     = Some (reading_progress ((sample_document ''d1'')
               \<lparr>reading_progress := 6620291452234629 / 9007199254740992\<rparr>))"
    by (simp add: round_double_0735)
  show ?thesis
    using reading_progress_rounded [of "sample_document ''d1''"]
      reading_progress_rounded [of "(sample_document ''d1'')
               \<lparr>reading_progress := 6620291452234629 / 9007199254740992\<rparr>"] a b
    by blast
qed

section \<open>HTML content is always requested\<close>

text \<open>
  Claim C10. Every request that listDocuments sends goes to \<^verbatim>\<open>/api/v3/list/\<close> and
  carries the query parameter \<^verbatim>\<open>withHtmlContent\<close> exactly once, with the value
  \<^verbatim>\<open>true\<close>, whatever the arguments and whatever the upstream answers; and a request
  is sent as soon as the upstream answers at all.
\<close>

theorem listDocuments_withHtmlContent:
  "(upstream \<noteq> [] \<longrightarrow> snd (listDocuments tok a upstream) \<noteq> []) \<and>
   (\<forall>q \<in> set (snd (listDocuments tok a upstream)).
      query_values q ''withHtmlContent'' = [''true''] \<and>
      req_url q = ''https://readwise.io/api/v3/list/'')"
proof
  show "upstream \<noteq> [] \<longrightarrow> snd (listDocuments tok a upstream) \<noteq> []"
    unfolding listDocuments_requests
    by (cases upstream) (simp_all add: listDocuments_loop_nonempty del: listDocuments_loop.simps)
  have wh: "''withHtmlContent'' \<noteq> ''pageCursor''" by simp
  from listDocuments_loop_requests [OF listDocuments_params_html wh]
  show "\<forall>q \<in> set (snd (listDocuments tok a upstream)).
      query_values q ''withHtmlContent'' = [''true''] \<and>
      req_url q = ''https://readwise.io/api/v3/list/''"
    unfolding listDocuments_requests query_values_def by simp
qed

theorem listDocuments_withHtmlContent_witness:
  "map (\<lambda>q. query_values q ''withHtmlContent'')
       (snd (listDocuments ''readwise_A'' (sample_args 3)
              [page_response (sample_page [''a'', ''b''] (Some ''c1'')),
               page_response (sample_page [''c'', ''d''] None)]))
     = [[''true''], [''true'']]"
proof -
  have len: "length (snd (listDocuments ''readwise_A'' (sample_args 3)
              [page_response (sample_page [''a'', ''b''] (Some ''c1'')),
               page_response (sample_page [''c'', ''d''] None)])) = 2"
    by (simp add: listDocuments_requests sample_args_def listDocuments_params_def
          URLSearchParams_append_def page_response_def sample_page_def ok_def slice0_def
          ToIntegerOrInfinity_def Let_def)
  show ?thesis
    using listDocuments_withHtmlContent [of
              "[page_response (sample_page [''a'', ''b''] (Some ''c1'')),
               page_response (sample_page [''c'', ''d''] None)]" "''readwise_A''" "sample_args 3"]
      len
    by (auto simp: length_Suc_conv numeral_2_eq_2)
qed

end
